theory Spec2Isabelle
  imports Main "HOL-Library.Sublist" "HOL-Library.AList"
begin

section \<open>Python values and strings\<close>

text \<open>
  The values that travel through the backend are the ones \<^verbatim>\<open>json.loads\<close> produces and the
  dict and list literals of the source build: \<^verbatim>\<open>None\<close>, booleans, integers, floats, strings,
  lists and dicts with string keys. A dict is an association list in insertion order (the
  order of a Python dict), a float is kept as the numeral text it was read from.

  A text is a \<^typ>\<open>string\<close>, one \<^typ>\<open>char\<close> per Python character. The case mapping and
  the whitespace of \<^verbatim>\<open>str.lower\<close> and \<^verbatim>\<open>str.strip\<close> are those of ASCII text; every
  keyword, marker and placeholder of the source is ASCII.
\<close>

datatype json =
    JNull
  | JBool bool
  | JInt int
  | JFloat string
  | JString string
  | JArray "json list"
  | JObject "(string \<times> json) list"

type_synonym pydict = "(string \<times> json) list"

text \<open>\<^verbatim>\<open>d.get(key, default)\<close> and \<^verbatim>\<open>key in d\<close> on a dict.\<close>

definition dict_get :: "pydict \<Rightarrow> string \<Rightarrow> json \<Rightarrow> json" where
  "dict_get d k dflt = (case map_of d k of Some v \<Rightarrow> v | None \<Rightarrow> dflt)"

definition dict_has :: "pydict \<Rightarrow> string \<Rightarrow> bool" where
  "dict_has d k = (map_of d k \<noteq> None)"

text \<open>The exceptions of the source and of the library calls it makes.\<close>

datatype py_error =
    KeyError string
  | ValueError string
  | IndexError string
  | TypeError string
  | AttributeError string
  | JSONDecodeError
  | FileNotFoundError string
  | ValidationError string
  | HTTPException nat string

subsection \<open>\<^verbatim>\<open>str.lower\<close>, \<^verbatim>\<open>str.strip\<close>, \<^verbatim>\<open>in\<close>, \<^verbatim>\<open>str.join\<close>, \<^verbatim>\<open>str(int)\<close>\<close>

definition upper_letters :: string where
  "upper_letters = ''ABCDEFGHIJKLMNOPQRSTUVWXYZ''"

definition lower_letters :: string where
  "lower_letters = ''abcdefghijklmnopqrstuvwxyz''"

definition lower_char :: "char \<Rightarrow> char" where
  "lower_char c = (case map_of (zip upper_letters lower_letters) c of Some d \<Rightarrow> d | None \<Rightarrow> c)"

definition lower :: "string \<Rightarrow> string" where
  "lower s = map lower_char s"

text \<open>
  The characters \<^verbatim>\<open>str.strip()\<close> removes from both ends of an ASCII text: tab, line feed,
  vertical tab, form feed, carriage return, the four separators 0x1C to 0x1F, and space.
\<close>

definition py_space :: "char \<Rightarrow> bool" where
  "py_space c = (c \<in> set [CHR 0x09, CHR 0x0A, CHR 0x0B, CHR 0x0C, CHR 0x0D,
                           CHR 0x1C, CHR 0x1D, CHR 0x1E, CHR 0x1F, CHR 0x20])"

definition strip :: "string \<Rightarrow> string" where
  "strip s = rev (dropWhile py_space (rev (dropWhile py_space s)))"

text \<open>\<^verbatim>\<open>needle in haystack\<close> on two strings: \<^verbatim>\<open>needle\<close> occurs as a contiguous run.\<close>

fun str_in :: "string \<Rightarrow> string \<Rightarrow> bool" where
  "str_in needle [] = (needle = [])"
| "str_in needle (c # cs) = (prefix needle (c # cs) \<or> str_in needle cs)"

text \<open>\<^verbatim>\<open>sep.join(parts)\<close>.\<close>

fun join :: "string \<Rightarrow> string list \<Rightarrow> string" where
  "join sep [] = []"
| "join sep [x] = x"
| "join sep (x # y # ys) = x @ sep @ join sep (y # ys)"

text \<open>\<^verbatim>\<open>str(n)\<close> of an integer, as an f-string prints it.\<close>

definition digit_char :: "nat \<Rightarrow> char" where
  "digit_char d = ''0123456789'' ! d"

fun str_of_nat :: "nat \<Rightarrow> string" where
  "str_of_nat n = (if n < 10 then [digit_char n] else str_of_nat (n div 10) @ [digit_char (n mod 10)])"

declare str_of_nat.simps [simp del]

definition str_of_int :: "int \<Rightarrow> string" where
  "str_of_int i = (if i < 0 then CHR ''-'' # str_of_nat (nat (- i)) else str_of_nat (nat i))"

section \<open>The fallback bias scan (\<^verbatim>\<open>Auditor._simple_bias_detection\<close>)\<close>

definition bias_keywords :: "(string \<times> string list) list" where
  "bias_keywords =
    [(''gender'', [''he'', ''she'', ''his'', ''her'', ''man'', ''woman'', ''male'', ''female'']),
     (''regional'', [''north'', ''south'', ''rural'', ''urban'', ''village'']),
     (''religious'', [''hindu'', ''muslim'', ''christian'', ''sikh'']),
     (''caste'', [''caste'', ''scheduled'', ''tribe'', ''backward''])]"

text \<open>
  The body of the inner loop: one keyword of one category, against the lower-cased text.
  The state is the pair of lists \<^verbatim>\<open>found_biases\<close> and \<^verbatim>\<open>bias_types\<close>.
\<close>

definition check_keyword ::
  "string \<Rightarrow> string \<Rightarrow> string list \<times> string list \<Rightarrow> string \<Rightarrow> string list \<times> string list" where
  "check_keyword text_lower bias_type st keyword =
    (case st of (found_biases, bias_types) \<Rightarrow>
      if str_in keyword text_lower then
        (if keyword \<notin> set found_biases then found_biases @ [keyword] else found_biases,
         if bias_type \<notin> set bias_types then bias_types @ [bias_type] else bias_types)
      else (found_biases, bias_types))"

definition scan_category ::
  "string \<Rightarrow> string list \<times> string list \<Rightarrow> string \<times> string list \<Rightarrow> string list \<times> string list" where
  "scan_category text_lower st entry =
    (case entry of (bias_type, keywords) \<Rightarrow> foldl (check_keyword text_lower bias_type) st keywords)"

definition scan_bias :: "string \<Rightarrow> string list \<times> string list" where
  "scan_bias text_lower = foldl (scan_category text_lower) ([], []) bias_keywords"

definition fairness_of :: "string list \<Rightarrow> int" where
  "fairness_of found_biases = max 50 (100 - int (length found_biases) * 5)"

definition recommendations :: "string list" where
  "recommendations =
    [''Use gender-neutral language where possible'',
     ''Avoid stereotypical assumptions'',
     ''Focus on facts and legal precedents'']"

definition simple_bias_detection :: "string \<Rightarrow> json" where
  "simple_bias_detection s =
    (case scan_bias (lower s) of (found_biases, bias_types) \<Rightarrow>
      let fairness_score = fairness_of found_biases in
      JObject
        [(''fairness_score'', JInt fairness_score),
         (''biased_terms'', JArray (map JString (take 10 found_biases))),
         (''bias_types'', JArray (map JString bias_types)),
         (''recommendations'', JArray (map JString recommendations)),
         (''summary'', JString (''Found '' @ str_of_nat (length found_biases)
              @ '' potentially biased terms. Fairness score: '' @ str_of_int fairness_score
              @ ''/100''))])"

text \<open>The keywords of the lexicon, in scan order, and those of them a text matches.\<close>

definition all_keywords :: "string list" where
  "all_keywords = concat (map snd bias_keywords)"

definition matched_keywords :: "string \<Rightarrow> string list" where
  "matched_keywords s = filter (\<lambda>k. str_in k (lower s)) all_keywords"

section \<open>Locating and parsing the structured object\<close>

subsection \<open>\<^verbatim>\<open>re.search\<close> with the brace pattern\<close>

text \<open>
  Both extractions search the response with the pattern
  \<^verbatim>\<open>\{[^{}]*(?:\{[^{}]*\}[^{}]*)*\}\<close>: an opening brace, then characters that are no brace,
  interleaved with groups \<^verbatim>\<open>{...}\<close> that hold no brace themselves, then a closing brace.
  No alternative of the pattern overlaps another (after a run of \<^verbatim>\<open>[^{}]\<close> only a brace can
  follow), so from a given opening brace the match is found by one pass: \<open>brace_body\<close> reads
  what follows the opening brace, its flag telling whether it is inside a nested group, and
  fails at the end of the text or at a brace on a third level. \<^verbatim>\<open>re.search\<close> returns the
  match of the leftmost position where one exists.
\<close>

fun brace_body :: "bool \<Rightarrow> string \<Rightarrow> string option" where
  "brace_body nested [] = None"
| "brace_body nested (c # cs) =
    (if c = CHR ''}'' then
       (if nested then map_option ((#) c) (brace_body False cs) else Some [c])
     else if c = CHR ''{'' then
       (if nested then None else map_option ((#) c) (brace_body True cs))
     else map_option ((#) c) (brace_body nested cs))"

fun re_search_braces :: "string \<Rightarrow> string option" where
  "re_search_braces [] = None"
| "re_search_braces (c # cs) =
    (if c = CHR ''{'' then
       (case brace_body False cs of
          Some m \<Rightarrow> Some (c # m)
        | None \<Rightarrow> re_search_braces cs)
     else re_search_braces cs)"

subsection \<open>\<^verbatim>\<open>json.loads\<close>\<close>

text \<open>
  The decoder of the standard library, in its default configuration: whitespace is space,
  tab, line feed and carriage return; a string ends at the first unescaped double quote, may
  not hold a control character, and knows the escapes \<^verbatim>\<open>\" \\ \/ \b \f \n \r \t \uXXXX\<close>; a
  number is \<^verbatim>\<open>-?(0|[1-9][0-9]*)(\.[0-9]+)?([eE][-+]?[0-9]+)?\<close>, an integer when it has neither
  fraction nor exponent; the literals are \<^verbatim>\<open>null true false NaN Infinity -Infinity\<close>; the
  last of several equal keys of an object wins; text after the parsed result, other than
  whitespace, is an error. Every error is the one exception \<open>JSONDecodeError\<close>.
  A \<^verbatim>\<open>\uXXXX\<close> escape yields the character \<open>char_of n\<close> of its code \<open>n\<close>.
\<close>

definition json_ws :: "char \<Rightarrow> bool" where
  "json_ws c = (c \<in> set [CHR 0x20, CHR 0x09, CHR 0x0A, CHR 0x0D])"

definition skip_ws :: "string \<Rightarrow> string" where
  "skip_ws s = dropWhile json_ws s"

definition is_digit :: "char \<Rightarrow> bool" where
  "is_digit c = (c \<in> set ''0123456789'')"

definition digit_val :: "char \<Rightarrow> nat" where
  "digit_val c = (case map_of (zip ''0123456789'' [0, 1, 2, 3, 4, 5, 6, 7, 8, 9]) c of Some d \<Rightarrow> d | None \<Rightarrow> 0)"

definition nat_of_digits :: "string \<Rightarrow> nat" where
  "nat_of_digits ds = foldl (\<lambda>a c. 10 * a + digit_val c) 0 ds"

definition hex_val :: "char \<Rightarrow> nat option" where
  "hex_val c = map_of (zip ''0123456789abcdefABCDEF''
      [0, 1, 2, 3, 4, 5, 6, 7, 8, 9, 10, 11, 12, 13, 14, 15, 10, 11, 12, 13, 14, 15]) c"

definition decode_hex4 :: "char \<Rightarrow> char \<Rightarrow> char \<Rightarrow> char \<Rightarrow> nat option" where
  "decode_hex4 a b c d =
    (case (hex_val a, hex_val b, hex_val c, hex_val d) of
       (Some x, Some y, Some z, Some w) \<Rightarrow> Some (((x * 16 + y) * 16 + z) * 16 + w)
     | _ \<Rightarrow> None)"

definition backslash_char :: "char \<Rightarrow> char option" where
  "backslash_char e =
    map_of [(CHR 0x22, CHR 0x22), (CHR 0x5C, CHR 0x5C), (CHR ''/'', CHR ''/''),
            (CHR ''b'', CHR 0x08), (CHR ''f'', CHR 0x0C), (CHR ''n'', CHR 0x0A),
            (CHR ''r'', CHR 0x0D), (CHR ''t'', CHR 0x09)] e"

definition control_chars :: string where
  "control_chars =
    [CHR 0x00, CHR 0x01, CHR 0x02, CHR 0x03, CHR 0x04, CHR 0x05, CHR 0x06, CHR 0x07,
     CHR 0x08, CHR 0x09, CHR 0x0A, CHR 0x0B, CHR 0x0C, CHR 0x0D, CHR 0x0E, CHR 0x0F,
     CHR 0x10, CHR 0x11, CHR 0x12, CHR 0x13, CHR 0x14, CHR 0x15, CHR 0x16, CHR 0x17,
     CHR 0x18, CHR 0x19, CHR 0x1A, CHR 0x1B, CHR 0x1C, CHR 0x1D, CHR 0x1E, CHR 0x1F]"

definition is_control :: "char \<Rightarrow> bool" where
  "is_control c = (c \<in> set control_chars)"

fun scanstring :: "string \<Rightarrow> (string \<times> string) option" where
  "scanstring [] = None"
| "scanstring (c # cs) =
    (if c = CHR 0x22 then Some ([], cs)
     else if c = CHR 0x5C then
       (case cs of
          [] \<Rightarrow> None
        | e # r \<Rightarrow>
            if e = CHR ''u'' then
              (case r of
                 a # b # x # y # r' \<Rightarrow>
                   (case decode_hex4 a b x y of
                      None \<Rightarrow> None
                    | Some n \<Rightarrow> map_option (\<lambda>(s, rest). (char_of n # s, rest)) (scanstring r'))
               | _ \<Rightarrow> None)
            else
              (case backslash_char e of
                 None \<Rightarrow> None
               | Some ch \<Rightarrow> map_option (\<lambda>(s, rest). (ch # s, rest)) (scanstring r)))
     else if is_control c then None
     else map_option (\<lambda>(s, rest). (c # s, rest)) (scanstring cs))"

lemma scanstring_shorter: "scanstring s = Some (k, rest) \<Longrightarrow> length rest < length s"
  by (induction s arbitrary: k rest rule: scanstring.induct)
     (fastforce split: if_splits list.splits option.splits)+


definition match_sign :: "string \<Rightarrow> string \<times> string" where
  "match_sign s = (case s of c # r \<Rightarrow> if c = CHR ''-'' then ([c], r) else ([], s) | [] \<Rightarrow> ([], s))"

definition match_integer :: "string \<Rightarrow> (string \<times> string) option" where
  "match_integer s =
    (case s of
       [] \<Rightarrow> None
     | d # r \<Rightarrow>
         if d = CHR ''0'' then Some ([d], r)
         else if is_digit d then Some (d # takeWhile is_digit r, dropWhile is_digit r)
         else None)"

definition match_frac :: "string \<Rightarrow> string \<times> string" where
  "match_frac s =
    (case s of
       p # r \<Rightarrow>
         if p = CHR ''.'' \<and> takeWhile is_digit r \<noteq> []
         then (p # takeWhile is_digit r, dropWhile is_digit r) else ([], s)
     | [] \<Rightarrow> ([], s))"

definition match_exp :: "string \<Rightarrow> string \<times> string" where
  "match_exp s =
    (case s of
       e # r \<Rightarrow>
         if e = CHR ''e'' \<or> e = CHR ''E'' then
           (let (sg, r') = (case r of c # q \<Rightarrow> if c = CHR ''+'' \<or> c = CHR ''-'' then ([c], q) else ([], r)
                                     | [] \<Rightarrow> ([], r))
            in if takeWhile is_digit r' \<noteq> []
               then (e # sg @ takeWhile is_digit r', dropWhile is_digit r') else ([], s))
         else ([], s)
     | [] \<Rightarrow> ([], s))"

definition match_number :: "string \<Rightarrow> (json \<times> string) option" where
  "match_number s =
    (case match_sign s of (sg, s1) \<Rightarrow>
      (case match_integer s1 of
         None \<Rightarrow> None
       | Some (ip, s2) \<Rightarrow>
           (case match_frac s2 of (frac, s3) \<Rightarrow>
             (case match_exp s3 of (ex, s4) \<Rightarrow>
               if frac = [] \<and> ex = []
               then Some (JInt (if sg = [] then int (nat_of_digits ip) else - int (nat_of_digits ip)), s4)
               else Some (JFloat (sg @ ip @ frac @ ex), s4)))))"

definition dict_of_pairs :: "(string \<times> json) list \<Rightarrow> pydict" where
  "dict_of_pairs ps = foldl (\<lambda>d (k, v). AList.update k v d) [] ps"

lemma skip_ws_le: "length (skip_ws s) \<le> length s"
  by (simp add: skip_ws_def length_dropWhile_le)

lemma skip_ws_Cons_less: "skip_ws s = c # r \<Longrightarrow> length r < length s"
  using skip_ws_le [of s] by simp

text \<open>
  The scanner of one JSON document: \<open>scan_once\<close> reads one item at the head of the text and
  returns it with the text that follows; \<open>scan_array\<close> and \<open>scan_object\<close> are the loops over
  the items of an array and the members of an object, with the items read so far. The
  tests \<open>length rest < length s\<close> in the two loops make the recursion evidently well-founded;
  they never fail, since an item that is read consumes at least one character.
\<close>

function scan_once :: "string \<Rightarrow> (json \<times> string) option"
  and scan_array :: "json list \<Rightarrow> string \<Rightarrow> (json \<times> string) option"
  and scan_object :: "(string \<times> json) list \<Rightarrow> string \<Rightarrow> (json \<times> string) option"
where
  "scan_once [] = None"
| "scan_once (c # r) =
    (if c = CHR 0x22 then map_option (\<lambda>(x, rest). (JString x, rest)) (scanstring r)
     else if c = CHR ''{'' then
       (case skip_ws r of
          [] \<Rightarrow> None
        | c1 # r1 \<Rightarrow>
            if c1 = CHR ''}'' then Some (JObject [], r1)
            else if c1 = CHR 0x22 then scan_object [] r1
            else None)
     else if c = CHR ''['' then
       (case skip_ws r of
          [] \<Rightarrow> None
        | c1 # r1 \<Rightarrow>
            if c1 = CHR '']'' then Some (JArray [], r1)
            else scan_array [] (c1 # r1))
     else if prefix ''null'' (c # r) then Some (JNull, drop 4 (c # r))
     else if prefix ''true'' (c # r) then Some (JBool True, drop 4 (c # r))
     else if prefix ''false'' (c # r) then Some (JBool False, drop 5 (c # r))
     else
       (case match_number (c # r) of
          Some res \<Rightarrow> Some res
        | None \<Rightarrow>
            if prefix ''NaN'' (c # r) then Some (JFloat ''NaN'', drop 3 (c # r))
            else if prefix ''Infinity'' (c # r) then Some (JFloat ''Infinity'', drop 8 (c # r))
            else if prefix ''-Infinity'' (c # r) then Some (JFloat ''-Infinity'', drop 9 (c # r))
            else None))"
| "scan_array acc s =
    (case scan_once s of
       None \<Rightarrow> None
     | Some (v, rest) \<Rightarrow>
         if length rest < length s then
           (case skip_ws rest of
              [] \<Rightarrow> None
            | c # r \<Rightarrow>
                if c = CHR '']'' then Some (JArray (acc @ [v]), r)
                else if c = CHR '','' then scan_array (acc @ [v]) (skip_ws r)
                else None)
         else None)"
| "scan_object acc s =
    (case scanstring s of
       None \<Rightarrow> None
     | Some (key, r1) \<Rightarrow>
         (case skip_ws r1 of
            [] \<Rightarrow> None
          | c # r2 \<Rightarrow>
              if c \<noteq> CHR '':'' then None
              else
                (case scan_once (skip_ws r2) of
                   None \<Rightarrow> None
                 | Some (v, rest) \<Rightarrow>
                     if length rest < length s then
                       (case skip_ws rest of
                          [] \<Rightarrow> None
                        | c' # r3 \<Rightarrow>
                            if c' = CHR ''}'' then Some (JObject (dict_of_pairs (acc @ [(key, v)])), r3)
                            else if c' = CHR '','' then
                              (case skip_ws r3 of
                                 [] \<Rightarrow> None
                               | q # r4 \<Rightarrow>
                                   if q = CHR 0x22 then scan_object (acc @ [(key, v)]) r4 else None)
                            else None)
                     else None)))"
  by pat_completeness auto

termination
proof (relation "measure (\<lambda>x. case x of
          Inl s \<Rightarrow> 2 * length s
        | Inr (Inl (acc, s)) \<Rightarrow> 2 * length s + 1
        | Inr (Inr (acc, s)) \<Rightarrow> 2 * length s + 1)", goal_cases)
  case 1
  show ?case by simp
next
  case (2 c r c1 r1)
  then show ?case using skip_ws_Cons_less [of r c1 r1] by simp
next
  case (3 c r c1 r1)
  then show ?case using skip_ws_le [of r] by simp
next
  case (4 acc s)
  show ?case by simp
next
  case (5 acc s x2 v rest c r)
  then show ?case using skip_ws_Cons_less [of rest c r] skip_ws_le [of r] by simp
next
  case (6 acc s x2 key r1 c r2)
  then show ?case
    using scanstring_shorter [of s key r1] skip_ws_Cons_less [of r1 c r2] skip_ws_le [of r2] by simp
next
  case (7 acc s x2 key r1 c r2 x2a v rest c' r3 q r4)
  then show ?case
    using skip_ws_Cons_less [of rest c' r3] skip_ws_Cons_less [of r3 q r4] by simp
qed

definition json_loads :: "string \<Rightarrow> py_error + json" where
  "json_loads s =
    (case scan_once (skip_ws s) of
       None \<Rightarrow> Inl JSONDecodeError
     | Some (v, rest) \<Rightarrow> if skip_ws rest = [] then Inr v else Inl JSONDecodeError)"

text \<open>
  An item that is read leaves a shorter text, so the tests of the two loops always hold:
  the loops satisfy the equations without them.
\<close>

lemma match_sign_le: "match_sign s = (sg, r) \<Longrightarrow> length r \<le> length s"
  by (auto simp: match_sign_def split: list.splits if_splits)

lemma match_integer_less: "match_integer s = Some (ip, r) \<Longrightarrow> length r < length s"
  by (auto simp: match_integer_def le_imp_less_Suc length_dropWhile_le split: list.splits if_splits)

lemma match_frac_le: "match_frac s = (fr, r) \<Longrightarrow> length r \<le> length s"
  by (auto simp: match_frac_def le_SucI length_dropWhile_le split: list.splits if_splits)

lemma match_exp_le: "match_exp s = (ex, r) \<Longrightarrow> length r \<le> length s"
proof (cases s)
  case Nil
  assume "match_exp s = (ex, r)"
  with Nil show ?thesis by (simp add: match_exp_def)
next
  case (Cons e q)
  assume m: "match_exp s = (ex, r)"
  have d: "length (dropWhile is_digit x) \<le> length x" for x
    by (rule length_dropWhile_le)
  show ?thesis
  proof (cases "e = CHR ''e'' \<or> e = CHR ''E''")
    case False
    with m Cons show ?thesis by (auto simp: match_exp_def)
  next
    case True
    obtain sg r' where s: "(case q of c # q' \<Rightarrow> if c = CHR ''+'' \<or> c = CHR ''-'' then ([c], q') else ([], q)
                                     | [] \<Rightarrow> ([], q)) = (sg, r')"
      by (cases "(case q of c # q' \<Rightarrow> if c = CHR ''+'' \<or> c = CHR ''-'' then ([c], q') else ([], q)
                                     | [] \<Rightarrow> ([], q))")
    then have r': "length r' \<le> length q" by (auto split: list.splits if_splits)
    from m Cons True s have "r = dropWhile is_digit r' \<or> r = s"
      by (auto simp: match_exp_def split: if_splits)
    then show ?thesis using d [of r'] r' Cons by auto
  qed
qed

lemma match_number_less: "match_number s = Some (v, rest) \<Longrightarrow> length rest < length s"
proof -
  assume m: "match_number s = Some (v, rest)"
  obtain sg s1 where a: "match_sign s = (sg, s1)" by (cases "match_sign s")
  from m a obtain ip s2 where b: "match_integer s1 = Some (ip, s2)"
    by (auto simp: match_number_def split: option.splits)
  obtain fr s3 where c: "match_frac s2 = (fr, s3)" by (cases "match_frac s2")
  obtain ex s4 where d: "match_exp s3 = (ex, s4)" by (cases "match_exp s3")
  from m a b c d have "rest = s4" by (auto simp: match_number_def split: if_splits)
  with match_sign_le [OF a] match_integer_less [OF b] match_frac_le [OF c] match_exp_le [OF d]
  show ?thesis by simp
qed

lemma scan_shorter:
  "(\<forall>v rest. scan_once s = Some (v, rest) \<longrightarrow> length rest < length s)"
  "(\<forall>v rest. scan_array items s1 = Some (v, rest) \<longrightarrow> length rest < length s1)"
  "(\<forall>v rest. scan_object members s2 = Some (v, rest) \<longrightarrow> length rest < length s2)"
proof (induction s and items s1 and members s2 rule: scan_once_scan_array_scan_object.induct)
  case 1
  show ?case by simp
next
  case (2 c r)
  show ?case
  proof (intro allI impI)
    fix v rest
    assume a: "scan_once (c # r) = Some (v, rest)"
    consider (str) "c = CHR 0x22"
      | (obj) "c \<noteq> CHR 0x22" "c = CHR ''{''"
      | (arr) "c \<noteq> CHR 0x22" "c \<noteq> CHR ''{''" "c = CHR ''[''"
      | (lit) "c \<noteq> CHR 0x22" "c \<noteq> CHR ''{''" "c \<noteq> CHR ''[''"
      by blast
    then show "length rest < length (c # r)"
    proof cases
      case str
      with a obtain x where "scanstring r = Some (x, rest)" by auto
      from scanstring_shorter [OF this] show ?thesis by simp
    next
      case obj
      show ?thesis
      proof (cases "skip_ws r")
        case Nil
        with a obj show ?thesis by simp
      next
        case (Cons c1 r1)
        from skip_ws_Cons_less [OF Cons] have l: "length r1 < length r" .
        show ?thesis
        proof (cases "c1 = CHR ''}''")
          case True
          with a obj Cons l show ?thesis by auto
        next
          case False
          with a obj Cons have q: "c1 = CHR 0x22" and so: "scan_object [] r1 = Some (v, rest)"
            by (auto split: if_splits)
          from "2.IH"(1) [OF obj Cons False q] so have "length rest < length r1" by blast
          with l show ?thesis by simp
        qed
      qed
    next
      case arr
      show ?thesis
      proof (cases "skip_ws r")
        case Nil
        with a arr show ?thesis by simp
      next
        case (Cons c1 r1)
        from skip_ws_le [of r] Cons have l: "length (c1 # r1) \<le> length r" by simp
        show ?thesis
        proof (cases "c1 = CHR '']''")
          case True
          with a arr Cons l show ?thesis by auto
        next
          case False
          with a arr Cons have sa: "scan_array [] (c1 # r1) = Some (v, rest)"
            by (simp del: scan_array.simps)
          from "2.IH"(2) [OF arr Cons False] sa have "length rest < length (c1 # r1)" by blast
          with l show ?thesis by simp
        qed
      qed
    next
      case lit
      have "length (drop n (c # r)) < length (c # r)" if "0 < n" for n
        using that by simp
      then have dr: "length (drop 3 (c # r)) < length (c # r)" "length (drop 4 (c # r)) < length (c # r)"
        "length (drop 5 (c # r)) < length (c # r)" "length (drop 8 (c # r)) < length (c # r)"
        "length (drop 9 (c # r)) < length (c # r)"
        by simp_all
      from a lit consider "rest = drop 3 (c # r)" | "rest = drop 4 (c # r)" | "rest = drop 5 (c # r)"
        | "rest = drop 8 (c # r)" | "rest = drop 9 (c # r)" | "match_number (c # r) = Some (v, rest)"
        by (auto simp del: drop_Cons_numeral split: if_splits option.splits)
      then show ?thesis
        using dr match_number_less [of "c # r" v rest] by cases (simp_all del: drop_Cons_numeral)
    qed
  qed
next
  case (3 items s)
  show ?case
  proof (intro allI impI)
    fix v rest
    assume a: "scan_array items s = Some (v, rest)"
    then obtain x r0 where so: "scan_once s = Some (x, r0)"
      by (auto split: option.splits)
    from a so have g: "length r0 < length s" by (auto split: if_splits)
    show "length rest < length s"
    proof (cases "skip_ws r0")
      case Nil
      with a so g show ?thesis by simp
    next
      case (Cons c r)
      from skip_ws_Cons_less [OF Cons] have l: "length r < length r0" .
      show ?thesis
      proof (cases "c = CHR '']''")
        case True
        with a so g Cons l show ?thesis by auto
      next
        case False
        have "c = CHR '','' \<and> scan_array (items @ [x]) (skip_ws r) = Some (v, rest)"
          using a so g Cons False
          apply (subst (asm) scan_array.simps)
          apply (auto simp del: scan_array.simps split: if_splits)
          done
        then have cm: "c = CHR '',''"
          and sa: "scan_array (items @ [x]) (skip_ws r) = Some (v, rest)"
          by simp_all
        have "length rest < length (skip_ws r)"
          using "3.IH"(2) [OF so refl g Cons False cm] sa by blast
        with skip_ws_le [of r] l g show ?thesis by simp
      qed
    qed
  qed
next
  case (4 members s)
  show ?case
  proof (intro allI impI)
    fix v rest
    assume a: "scan_object members s = Some (v, rest)"
    then obtain key r1 where ss: "scanstring s = Some (key, r1)"
      by (auto split: option.splits)
    from a ss obtain c r2 where sk: "skip_ws r1 = c # r2"
      by (cases "skip_ws r1") auto
    from a ss sk have col: "\<not> c \<noteq> CHR '':''" by (auto split: if_splits)
    from a ss sk col obtain x r0 where so: "scan_once (skip_ws r2) = Some (x, r0)"
      by (auto split: option.splits)
    from a ss sk col so have g: "length r0 < length s" by (auto split: if_splits)
    from a ss sk col so g obtain c' r3 where sk3: "skip_ws r0 = c' # r3"
      by (cases "skip_ws r0") auto
    from skip_ws_Cons_less [OF sk3] have l3: "length r3 < length r0" .
    show "length rest < length s"
    proof (cases "c' = CHR ''}''")
      case True
      with a ss sk col so g sk3 l3 show ?thesis by auto
    next
      case False
      with a ss sk col so g sk3 have cm: "c' = CHR '',''" by (auto split: if_splits)
      from a ss sk col so g sk3 False cm obtain q r4 where sk4: "skip_ws r3 = q # r4"
        by (cases "skip_ws r3") auto
      have "q = CHR 0x22 \<and> scan_object (members @ [(key, x)]) r4 = Some (v, rest)"
        using a ss sk col so g sk3 False cm sk4
        apply (subst (asm) scan_object.simps)
        apply (auto simp del: scan_object.simps split: if_splits)
        done
      then have qq: "q = CHR 0x22"
        and sob: "scan_object (members @ [(key, x)]) r4 = Some (v, rest)"
        by simp_all
      have "length rest < length r4"
        using "4.IH"(2) [OF ss refl sk col so refl g sk3 False cm sk4 qq] sob by blast
      with skip_ws_Cons_less [OF sk4] l3 g show ?thesis by simp
    qed
  qed
qed

lemma scan_array_unguarded:
  "scan_array items s =
    (case scan_once s of
       None \<Rightarrow> None
     | Some (v, rest) \<Rightarrow>
         (case skip_ws rest of
            [] \<Rightarrow> None
          | c # r \<Rightarrow>
              if c = CHR '']'' then Some (JArray (items @ [v]), r)
              else if c = CHR '','' then scan_array (items @ [v]) (skip_ws r)
              else None))"
proof (cases "scan_once s")
  case None
  then show ?thesis by simp
next
  case (Some p)
  obtain v rest where p: "p = (v, rest)" by (cases p)
  from scan_shorter(1) [of s] Some p have "length rest < length s" by blast
  with Some p show ?thesis
    by (subst scan_array.simps) (simp del: scan_array.simps)
qed

lemma scan_object_unguarded:
  "scan_object members s =
    (case scanstring s of
       None \<Rightarrow> None
     | Some (key, r1) \<Rightarrow>
         (case skip_ws r1 of
            [] \<Rightarrow> None
          | c # r2 \<Rightarrow>
              if c \<noteq> CHR '':'' then None
              else
                (case scan_once (skip_ws r2) of
                   None \<Rightarrow> None
                 | Some (v, rest) \<Rightarrow>
                     (case skip_ws rest of
                        [] \<Rightarrow> None
                      | c' # r3 \<Rightarrow>
                          if c' = CHR ''}'' then Some (JObject (dict_of_pairs (members @ [(key, v)])), r3)
                          else if c' = CHR '','' then
                            (case skip_ws r3 of
                               [] \<Rightarrow> None
                             | q # r4 \<Rightarrow>
                                 if q = CHR 0x22 then scan_object (members @ [(key, v)]) r4 else None)
                          else None))))"
proof -
  have g: "length rest < length s"
    if "scanstring s = Some (key, r1)" "skip_ws r1 = c # r2" "scan_once (skip_ws r2) = Some (v, rest)"
    for key r1 c r2 v rest
  proof -
    from scan_shorter(1) [of "skip_ws r2"] that(3) have "length rest < length (skip_ws r2)" by blast
    with skip_ws_le [of r2] skip_ws_Cons_less [OF that(2)] scanstring_shorter [OF that(1)]
    show ?thesis by simp
  qed
  show ?thesis
    by (subst scan_object.simps)
       (auto simp del: scan_object.simps simp: g split: option.splits list.splits)
qed

section \<open>Agent invocation (\<^verbatim>\<open>agents.py\<close>)\<close>

subsection \<open>\<^verbatim>\<open>str.format(**context)\<close>\<close>

text \<open>
  The prompt template of a role is the text of a file that is not part of the source tree
  (\<^verbatim>\<open>_load_prompt\<close> reads it, and yields the empty text when there is none), so it is a
  parameter here. \<^verbatim>\<open>str.format\<close> copies the template from left to right: \<^verbatim>\<open>{{\<close> and \<^verbatim>\<open>}}\<close>
  stand for one brace, a brace on its own is a \<open>ValueError\<close>, and \<^verbatim>\<open>{name}\<close> is replaced by
  the formatted entry of the context under \<^verbatim>\<open>name\<close>, a \<open>KeyError\<close> when there is none. An
  empty or numeric field asks for a positional argument, which a call with keywords only
  does not have: an \<open>IndexError\<close>. The first error met from the left is the one raised.

  A replacement field with an attribute, an index, a conversion or a format spec (a field
  holding one of \<^verbatim>\<open>. [ ! :\<close>) is outside this model, which refuses it with a
  \<open>ValueError\<close>; what is proved of the outcome of formatting is proved for templates whose
  fields are plain names (\<open>plain_template\<close>).

  A string is formatted as itself. How any other entry prints (\<^verbatim>\<open>str\<close> of a number, a list,
  a dict) is the parameter \<open>to_str\<close>.
\<close>

definition py_format :: "(json \<Rightarrow> string) \<Rightarrow> json \<Rightarrow> string" where
  "py_format to_str v = (case v of JString s \<Rightarrow> s | _ \<Rightarrow> to_str v)"

definition compound_chars :: string where
  "compound_chars = ''.[!:''"

definition get_field :: "(json \<Rightarrow> string) \<Rightarrow> pydict \<Rightarrow> string \<Rightarrow> py_error + string" where
  "get_field to_str ctx name =
    (if list_all is_digit name
     then Inl (IndexError ''Replacement index out of range for positional args tuple'')
     else if list_ex (\<lambda>c. c \<in> set compound_chars) name
     then Inl (ValueError ''replacement field outside the model'')
     else (case map_of ctx name of
             None \<Rightarrow> Inl (KeyError name)
           | Some v \<Rightarrow> Inr (py_format to_str v)))"

fun format_literal :: "(json \<Rightarrow> string) \<Rightarrow> pydict \<Rightarrow> string \<Rightarrow> py_error + string"
  and format_field :: "(json \<Rightarrow> string) \<Rightarrow> pydict \<Rightarrow> string \<Rightarrow> string \<Rightarrow> py_error + string"
where
  "format_literal to_str ctx [] = Inr []"
| "format_literal to_str ctx [c] =
    (if c = CHR ''{'' then Inl (ValueError ''Single { encountered in format string'')
     else if c = CHR ''}'' then Inl (ValueError ''Single } encountered in format string'')
     else Inr [c])"
| "format_literal to_str ctx (c # d # r) =
    (if c = CHR ''{'' then
       (if d = CHR ''{'' then map_sum id ((#) c) (format_literal to_str ctx r)
        else format_field to_str ctx [] (d # r))
     else if c = CHR ''}'' then
       (if d = CHR ''}'' then map_sum id ((#) c) (format_literal to_str ctx r)
        else Inl (ValueError ''Single } encountered in format string''))
     else map_sum id ((#) c) (format_literal to_str ctx (d # r)))"
| "format_field to_str ctx name [] = Inl (ValueError ''expected } before end of string'')"
| "format_field to_str ctx name (c # r) =
    (if c = CHR ''}'' then
       (case get_field to_str ctx name of
          Inl e \<Rightarrow> Inl e
        | Inr v \<Rightarrow> map_sum id ((@) v) (format_literal to_str ctx r))
     else if c = CHR ''{'' then Inl (ValueError ''unexpected { in field name'')
     else format_field to_str ctx (name @ [c]) r)"

definition format_template :: "(json \<Rightarrow> string) \<Rightarrow> string \<Rightarrow> pydict \<Rightarrow> py_error + string" where
  "format_template to_str template ctx = format_literal to_str ctx template"

text \<open>
  The replacement fields of a template, in order; \<open>None\<close> for a template with a brace out
  of place. A plain template is one whose fields are all names: not empty, not a number,
  and without \<^verbatim>\<open>. [ ! :\<close>.
\<close>

fun fields_literal :: "string \<Rightarrow> string list option"
  and fields_field :: "string \<Rightarrow> string \<Rightarrow> string list option"
where
  "fields_literal [] = Some []"
| "fields_literal [c] = (if c = CHR ''{'' \<or> c = CHR ''}'' then None else Some [])"
| "fields_literal (c # d # r) =
    (if c = CHR ''{'' then
       (if d = CHR ''{'' then fields_literal r else fields_field [] (d # r))
     else if c = CHR ''}'' then
       (if d = CHR ''}'' then fields_literal r else None)
     else fields_literal (d # r))"
| "fields_field name [] = None"
| "fields_field name (c # r) =
    (if c = CHR ''}'' then map_option ((#) name) (fields_literal r)
     else if c = CHR ''{'' then None
     else fields_field (name @ [c]) r)"

definition plain_name :: "string \<Rightarrow> bool" where
  "plain_name name = (\<not> list_all is_digit name \<and> \<not> list_ex (\<lambda>c. c \<in> set compound_chars) name)"

definition plain_template :: "string \<Rightarrow> bool" where
  "plain_template template =
    (case fields_literal template of None \<Rightarrow> False | Some names \<Rightarrow> list_all plain_name names)"

definition placeholders :: "string \<Rightarrow> string list" where
  "placeholders template = (case fields_literal template of None \<Rightarrow> [] | Some names \<Rightarrow> names)"

subsection \<open>\<^verbatim>\<open>LegalAgent.generate_response\<close>\<close>

text \<open>
  What an agent depends on and the source does not hold:
  \<^item> \<open>templates\<close>: the prompt template of each agent type, as \<^verbatim>\<open>_load_prompt\<close> returned it;
  \<^item> \<open>llm\<close>: the chat completion service. \<open>llm env k system prompt\<close> is the outcome of the
    \<open>k\<close>-th invocation of this run: \<open>Inr content\<close> when the call returns and the response
    holds the text \<open>content\<close>, \<open>Inl msg\<close> when the call or the reading of its response
    raises an exception \<open>e\<close> with \<^verbatim>\<open>str(e) = msg\<close>. Any sequence of outcomes is some \<open>llm\<close>;
  \<^item> \<open>py_str\<close>: how Python prints a context entry that is not a string.

  The state threaded through the calls is the list of agent invocations made so far, each
  with the agent type and the context it was given.
\<close>

record env =
  templates :: "string \<Rightarrow> string"
  llm :: "nat \<Rightarrow> string \<Rightarrow> string \<Rightarrow> string + string"
  py_str :: "json \<Rightarrow> string"

type_synonym invocation = "string \<times> pydict"

definition system_message :: "string \<Rightarrow> string" where
  "system_message agent_type =
    ''You are a '' @ map (\<lambda>c. if c = CHR ''_'' then CHR '' '' else c) agent_type
      @ '' in an Indian courtroom.''"

definition generate_response ::
  "env \<Rightarrow> string \<Rightarrow> pydict \<Rightarrow> invocation list \<Rightarrow> (py_error + string) \<times> invocation list" where
  "generate_response env agent_type ctx w =
    (case format_template (py_str env) (templates env agent_type) ctx of
       Inl e \<Rightarrow> (Inl e, w @ [(agent_type, ctx)])
     | Inr prompt \<Rightarrow>
         (case llm env (length w) (system_message agent_type) prompt of
            Inr content \<Rightarrow> (Inr (strip content), w @ [(agent_type, ctx)])
          | Inl msg \<Rightarrow> (Inr (''Error generating response: '' @ msg), w @ [(agent_type, ctx)])))"

subsection \<open>\<^verbatim>\<open>Judge.render_verdict\<close>\<close>

text \<open>
  \<^verbatim>\<open>key in x\<close> for a string key: a key of a dict, an element of a list, a part of a string;
  a \<open>TypeError\<close> on a value that is no container.
\<close>

fun py_in :: "string \<Rightarrow> json \<Rightarrow> py_error + bool" where
  "py_in k (JObject d) = Inr (dict_has d k)"
| "py_in k (JArray xs) = Inr (JString k \<in> set xs)"
| "py_in k (JString s) = Inr (str_in k s)"
| "py_in k v = Inl (TypeError ''argument is not iterable'')"

text \<open>The first two statements of the \<^verbatim>\<open>try\<close> block: search, then parse the match or the whole text.\<close>

definition parse_response :: "string \<Rightarrow> py_error + json" where
  "parse_response response_text =
    (case re_search_braces response_text of
       Some json_match \<Rightarrow> json_loads json_match
     | None \<Rightarrow> json_loads response_text)"

text \<open>
  The \<^verbatim>\<open>try\<close> block of \<^verbatim>\<open>render_verdict\<close>: \<open>Inl\<close> when it raises, \<open>Inr (Some v)\<close> when it returns
  \<open>v\<close>, \<open>Inr None\<close> when it falls through. The bare \<^verbatim>\<open>except\<close> passes on to the fallback.
\<close>

definition try_verdict :: "string \<Rightarrow> py_error + json option" where
  "try_verdict response_text =
    (case parse_response response_text of
       Inl e \<Rightarrow> Inl e
     | Inr parsed \<Rightarrow>
         (case py_in ''verdict'' parsed of
            Inl e \<Rightarrow> Inl e
          | Inr False \<Rightarrow> Inr None
          | Inr True \<Rightarrow>
              (case py_in ''confidence'' parsed of
                 Inl e \<Rightarrow> Inl e
               | Inr False \<Rightarrow> Inr None
               | Inr True \<Rightarrow> Inr (Some parsed))))"

definition verdict_fallback :: "string \<Rightarrow> json" where
  "verdict_fallback response_text =
    (let verdict_type =
       (if str_in ''plaintiff'' (lower response_text) then ''FAVOR_PLAINTIFF'' else ''FAVOR_DEFENDANT'')
     in JObject
       [(''verdict'', JString verdict_type),
        (''confidence'', JInt 75),
        (''reasoning'', JArray [JString (take 200 response_text)]),
        (''supporting_evidence'', JArray [JString ''Evidence from case facts''])])"

definition extract_verdict :: "string \<Rightarrow> json" where
  "extract_verdict response_text =
    (case try_verdict response_text of
       Inr (Some parsed) \<Rightarrow> parsed
     | _ \<Rightarrow> verdict_fallback response_text)"

definition render_verdict ::
  "env \<Rightarrow> pydict \<Rightarrow> invocation list \<Rightarrow> (py_error + json) \<times> invocation list" where
  "render_verdict env ctx w =
    (case generate_response env ''judge'' ctx w of
       (Inl e, w') \<Rightarrow> (Inl e, w')
     | (Inr response_text, w') \<Rightarrow> (Inr (extract_verdict response_text), w'))"

subsection \<open>\<^verbatim>\<open>Auditor.audit_case\<close>\<close>

definition try_audit :: "string \<Rightarrow> py_error + json option" where
  "try_audit response_text =
    (case parse_response response_text of
       Inl e \<Rightarrow> Inl e
     | Inr parsed \<Rightarrow>
         (case py_in ''fairness_score'' parsed of
            Inl e \<Rightarrow> Inl e
          | Inr False \<Rightarrow> Inr None
          | Inr True \<Rightarrow> Inr (Some parsed)))"

definition audit_fallback :: "(json \<Rightarrow> string) \<Rightarrow> pydict \<Rightarrow> json" where
  "audit_fallback to_str ctx =
    (let case_text = py_format to_str (dict_get ctx ''facts'' (JString '''')) @ '' ''
           @ py_format to_str (dict_get ctx ''verdict'' (JString '''')) @ '' ''
           @ py_format to_str (dict_get ctx ''reasoning'' (JString ''''))
     in simple_bias_detection case_text)"

definition extract_audit :: "(json \<Rightarrow> string) \<Rightarrow> pydict \<Rightarrow> string \<Rightarrow> json" where
  "extract_audit to_str ctx response_text =
    (case try_audit response_text of
       Inr (Some parsed) \<Rightarrow> parsed
     | _ \<Rightarrow> audit_fallback to_str ctx)"

definition audit_case ::
  "env \<Rightarrow> pydict \<Rightarrow> invocation list \<Rightarrow> (py_error + json) \<times> invocation list" where
  "audit_case env ctx w =
    (case generate_response env ''auditor'' ctx w of
       (Inl e, w') \<Rightarrow> (Inl e, w')
     | (Inr response_text, w') \<Rightarrow> (Inr (extract_audit (py_str env) ctx response_text), w'))"

section \<open>The debate orchestrator (\<^verbatim>\<open>orchestrator.py\<close>)\<close>

record transcript_entry =
  round :: int
  speaker :: string
  argument :: string

record simulation_result =
  debate_transcript :: "transcript_entry list"
  verdict :: json
  rounds_completed :: int

text \<open>
  The loop \<^verbatim>\<open>for round_num in range(1, rounds + 1)\<close>, over the list of its round numbers. An
  exception of a turn leaves the loop and the function.
\<close>

fun debate_rounds ::
  "env \<Rightarrow> json \<Rightarrow> json \<Rightarrow> json \<Rightarrow> int list \<Rightarrow> transcript_entry list \<Rightarrow> invocation list
    \<Rightarrow> (py_error + transcript_entry list) \<times> invocation list" where
  "debate_rounds env facts issues holding [] transcript w = (Inr transcript, w)"
| "debate_rounds env facts issues holding (round_num # later) transcript w =
    (let plaintiff_context = [(''facts'', facts), (''issues'', issues), (''holding'', holding)] in
     case generate_response env ''plaintiff_lawyer'' plaintiff_context w of
       (Inl e, w1) \<Rightarrow> (Inl e, w1)
     | (Inr plaintiff_arg, w1) \<Rightarrow>
         (let transcript1 = transcript @
                [\<lparr>round = round_num, speaker = ''Plaintiff Lawyer'', argument = plaintiff_arg\<rparr>];
              defendant_context = [(''facts'', facts), (''issues'', issues), (''holding'', holding)]
          in case generate_response env ''defendant_lawyer'' defendant_context w1 of
               (Inl e, w2) \<Rightarrow> (Inl e, w2)
             | (Inr defendant_arg, w2) \<Rightarrow>
                 debate_rounds env facts issues holding later
                   (transcript1 @
                      [\<lparr>round = round_num, speaker = ''Defendant Lawyer'', argument = defendant_arg\<rparr>])
                   w2))"

definition arguments_of :: "string \<Rightarrow> transcript_entry list \<Rightarrow> string" where
  "arguments_of who transcript =
    join [CHR 0x0A, CHR 0x0A] (map argument (filter (\<lambda>t. speaker t = who) transcript))"

definition run_simulation ::
  "env \<Rightarrow> pydict \<Rightarrow> int \<Rightarrow> invocation list \<Rightarrow> (py_error + simulation_result) \<times> invocation list" where
  "run_simulation env case_data rounds w =
    (let facts = dict_get case_data ''facts'' (JString '''');
         issues = dict_get case_data ''issues'' (JString '''');
         holding = dict_get case_data ''holding'' (JString '''')
     in case debate_rounds env facts issues holding [1 .. rounds] [] w of
          (Inl e, w1) \<Rightarrow> (Inl e, w1)
        | (Inr transcript, w1) \<Rightarrow>
            (let plaintiff_arguments = arguments_of ''Plaintiff Lawyer'' transcript;
                 defendant_arguments = arguments_of ''Defendant Lawyer'' transcript;
                 judge_context =
                   [(''facts'', facts), (''issues'', issues), (''holding'', holding),
                    (''plaintiff_arguments'', JString plaintiff_arguments),
                    (''defendant_arguments'', JString defendant_arguments)]
             in case render_verdict env judge_context w1 of
                  (Inl e, w2) \<Rightarrow> (Inl e, w2)
                | (Inr v, w2) \<Rightarrow>
                    (Inr \<lparr>debate_transcript = transcript, verdict = v, rounds_completed = rounds\<rparr>,
                     w2)))"

section \<open>The bias auditor (\<^verbatim>\<open>auditor.py\<close>)\<close>

text \<open>
  \<^verbatim>\<open>x.get(key, default)\<close> on a value that need not be a dict, and \<^verbatim>\<open>sep.join(x)\<close> on a
  value that need not be a list of strings (a string joins its characters, a dict its keys).
\<close>

definition py_get :: "json \<Rightarrow> string \<Rightarrow> json \<Rightarrow> py_error + json" where
  "py_get x k dflt =
    (case x of
       JObject d \<Rightarrow> Inr (dict_get d k dflt)
     | _ \<Rightarrow> Inl (AttributeError ''object has no attribute get''))"

fun str_items :: "json list \<Rightarrow> string list option" where
  "str_items [] = Some []"
| "str_items (JString s # xs) = map_option ((#) s) (str_items xs)"
| "str_items (x # xs) = None"

definition py_join :: "string \<Rightarrow> json \<Rightarrow> py_error + string" where
  "py_join sep x =
    (case x of
       JArray xs \<Rightarrow>
         (case str_items xs of
            Some items \<Rightarrow> Inr (join sep items)
          | None \<Rightarrow> Inl (TypeError ''sequence item: expected str instance''))
     | JString s \<Rightarrow> Inr (join sep (map (\<lambda>c. [c]) s))
     | JObject d \<Rightarrow> Inr (join sep (map fst d))
     | _ \<Rightarrow> Inl (TypeError ''can only join an iterable''))"

definition audit ::
  "env \<Rightarrow> pydict \<Rightarrow> json \<Rightarrow> invocation list \<Rightarrow> (py_error + json) \<times> invocation list" where
  "audit env case_data judged w =
    (let facts = dict_get case_data ''facts'' (JString '''') in
     case py_get judged ''verdict'' (JString '''') of
       Inl e \<Rightarrow> (Inl e, w)
     | Inr verdict_text \<Rightarrow>
         (case py_get judged ''reasoning'' (JArray []) of
            Inl e \<Rightarrow> (Inl e, w)
          | Inr reasons \<Rightarrow>
              (case py_join '' '' reasons of
                 Inl e \<Rightarrow> (Inl e, w)
               | Inr reasoning \<Rightarrow>
                   audit_case env
                     [(''facts'', facts), (''verdict'', verdict_text), (''reasoning'', JString reasoning)]
                     w)))"

section \<open>The endpoints (\<^verbatim>\<open>server.py\<close>) and the case store (\<^verbatim>\<open>data_loader.py\<close>)\<close>

text \<open>
  The case store is the directory of case files, one JSON object per case identifier.
  \<^verbatim>\<open>update_case\<close> loads the record, overwrites the named fields and writes it back.
\<close>

type_synonym store = "string \<Rightarrow> pydict option"

definition load_case :: "store \<Rightarrow> string \<Rightarrow> py_error + pydict" where
  "load_case st case_id =
    (case st case_id of
       None \<Rightarrow> Inl (FileNotFoundError (''Case '' @ case_id @ '' not found''))
     | Some case_data \<Rightarrow> Inr case_data)"

definition dict_update :: "pydict \<Rightarrow> pydict \<Rightarrow> pydict" where
  "dict_update d updates = foldl (\<lambda>acc (k, v). AList.update k v acc) d updates"

definition update_case :: "store \<Rightarrow> string \<Rightarrow> pydict \<Rightarrow> py_error + store" where
  "update_case st case_id updates =
    (case load_case st case_id of
       Inl e \<Rightarrow> Inl e
     | Inr case_data \<Rightarrow> Inr (st(case_id \<mapsto> dict_update case_data updates)))"

text \<open>
  \<^verbatim>\<open>str(e)\<close> of an exception: its message; of a \<open>KeyError\<close> the key in quotes; of an
  \<open>HTTPException\<close> its status code and detail.
\<close>

fun str_of_error :: "py_error \<Rightarrow> string" where
  "str_of_error (KeyError k) = [CHR 0x27] @ k @ [CHR 0x27]"
| "str_of_error (ValueError m) = m"
| "str_of_error (IndexError m) = m"
| "str_of_error (TypeError m) = m"
| "str_of_error (AttributeError m) = m"
| "str_of_error JSONDecodeError = ''Expecting value''"
| "str_of_error (FileNotFoundError m) = m"
| "str_of_error (ValidationError m) = m"
| "str_of_error (HTTPException status detail) = str_of_nat status @ '': '' @ detail"

text \<open>
  The two \<^verbatim>\<open>except\<close> clauses that close every endpoint. \<open>HTTPException\<close> is a subclass of
  \<open>Exception\<close>, as every exception of \<open>py_error\<close> is, so the second clause catches all of
  them but \<open>FileNotFoundError\<close>, which the first one has taken.
\<close>

definition except_clauses :: "string \<Rightarrow> py_error + 'a \<Rightarrow> py_error + 'a" where
  "except_clauses what r =
    (case r of
       Inr x \<Rightarrow> Inr x
     | Inl (FileNotFoundError m) \<Rightarrow> Inl (HTTPException 404 ''Case not found'')
     | Inl e \<Rightarrow> Inl (HTTPException 500 (what @ str_of_error e)))"

definition json_of_entry :: "transcript_entry \<Rightarrow> json" where
  "json_of_entry t =
    JObject [(''round'', JInt (round t)), (''speaker'', JString (speaker t)),
             (''argument'', JString (argument t))]"

definition json_of_result :: "simulation_result \<Rightarrow> json" where
  "json_of_result r =
    JObject [(''debate_transcript'', JArray (map json_of_entry (debate_transcript r))),
             (''verdict'', verdict r),
             (''rounds_completed'', JInt (rounds_completed r))]"

text \<open>
  The response models declare \<^verbatim>\<open>verdict\<close> and \<^verbatim>\<open>audit_result\<close> as \<^verbatim>\<open>Dict[str, Any]\<close>: building
  the response from anything but a dict is a validation error.
\<close>

definition validate_dict :: "string \<Rightarrow> json \<Rightarrow> py_error + json" where
  "validate_dict field x =
    (case x of
       JObject d \<Rightarrow> Inr (JObject d)
     | _ \<Rightarrow> Inl (ValidationError (field @ '': Input should be a valid dictionary'')))"

text \<open>The body of the \<^verbatim>\<open>try\<close> block of \<^verbatim>\<open>POST /simulate/{case_id}\<close>, then the endpoint.\<close>

definition simulate_body ::
  "env \<Rightarrow> string \<Rightarrow> int \<Rightarrow> store \<times> invocation list \<Rightarrow> (py_error + pydict) \<times> store \<times> invocation list" where
  "simulate_body env case_id rounds state =
    (case state of (st, w) \<Rightarrow>
      (case load_case st case_id of
         Inl e \<Rightarrow> (Inl e, st, w)
       | Inr case_data \<Rightarrow>
           if \<not> dict_has case_data ''facts''
           then (Inl (HTTPException 400 ''Case must be processed before simulation''), st, w)
           else
             (case run_simulation env case_data rounds w of
                (Inl e, w') \<Rightarrow> (Inl e, st, w')
              | (Inr simulation_result, w') \<Rightarrow>
                  (case update_case st case_id [(''simulation'', json_of_result simulation_result)] of
                     Inl e \<Rightarrow> (Inl e, st, w')
                   | Inr st' \<Rightarrow>
                       (case validate_dict ''verdict'' (verdict simulation_result) of
                          Inl e \<Rightarrow> (Inl e, st', w')
                        | Inr v \<Rightarrow>
                            (Inr [(''case_id'', JString case_id),
                                  (''debate_transcript'',
                                     JArray (map json_of_entry (debate_transcript simulation_result))),
                                  (''verdict'', v),
                                  (''rounds_completed'', JInt (rounds_completed simulation_result))],
                             st', w'))))))"

definition api_run_simulation ::
  "env \<Rightarrow> string \<Rightarrow> int \<Rightarrow> store \<times> invocation list \<Rightarrow> (py_error + pydict) \<times> store \<times> invocation list" where
  "api_run_simulation env case_id rounds state =
    (case simulate_body env case_id rounds state of
       (r, state') \<Rightarrow> (except_clauses ''Error running simulation: '' r, state'))"

text \<open>\<^verbatim>\<open>x[key]\<close> for a string key.\<close>

definition py_subscript :: "json \<Rightarrow> string \<Rightarrow> py_error + json" where
  "py_subscript x k =
    (case x of
       JObject d \<Rightarrow> (case map_of d k of Some v \<Rightarrow> Inr v | None \<Rightarrow> Inl (KeyError k))
     | JString s \<Rightarrow> Inl (TypeError ''string indices must be integers'')
     | JArray xs \<Rightarrow> Inl (TypeError ''list indices must be integers or slices'')
     | _ \<Rightarrow> Inl (TypeError ''object is not subscriptable''))"

definition audit_body ::
  "env \<Rightarrow> string \<Rightarrow> store \<times> invocation list \<Rightarrow> (py_error + pydict) \<times> store \<times> invocation list" where
  "audit_body env case_id state =
    (case state of (st, w) \<Rightarrow>
      (case load_case st case_id of
         Inl e \<Rightarrow> (Inl e, st, w)
       | Inr case_data \<Rightarrow>
           if \<not> dict_has case_data ''simulation''
           then (Inl (HTTPException 400 ''Simulation must be run before audit''), st, w)
           else
             (case py_subscript (dict_get case_data ''simulation'' JNull) ''verdict'' of
                Inl e \<Rightarrow> (Inl e, st, w)
              | Inr judged \<Rightarrow>
                  (case audit env case_data judged w of
                     (Inl e, w') \<Rightarrow> (Inl e, st, w')
                   | (Inr audit_result, w') \<Rightarrow>
                       (case update_case st case_id [(''audit'', audit_result)] of
                          Inl e \<Rightarrow> (Inl e, st, w')
                        | Inr st' \<Rightarrow>
                            (case validate_dict ''audit_result'' audit_result of
                               Inl e \<Rightarrow> (Inl e, st', w')
                             | Inr a \<Rightarrow>
                                 (Inr [(''case_id'', JString case_id), (''audit_result'', a)],
                                  st', w')))))))"

definition api_audit_case ::
  "env \<Rightarrow> string \<Rightarrow> store \<times> invocation list \<Rightarrow> (py_error + pydict) \<times> store \<times> invocation list" where
  "api_audit_case env case_id state =
    (case audit_body env case_id state of
       (r, state') \<Rightarrow> (except_clauses ''Error auditing case: '' r, state'))"

section \<open>Reading results, and the inputs of the examples\<close>

text \<open>The entry of a returned object under a key; \<open>None\<close> when the result is no object.\<close>

definition json_get :: "json \<Rightarrow> string \<Rightarrow> json option" where
  "json_get v k = (case v of JObject d \<Rightarrow> map_of d k | _ \<Rightarrow> None)"

text \<open>
  The prompt template of an agent type renders on every context with the given keys: its
  replacement fields are plain names, all among the keys.
\<close>

definition renders :: "env \<Rightarrow> string \<Rightarrow> string list \<Rightarrow> bool" where
  "renders env agent_type keys =
    (plain_template (templates env agent_type)
     \<and> set (placeholders (templates env agent_type)) \<subseteq> set keys)"

text \<open>
  The outcome of formatting against the fields of a template: a prompt when the context has
  every field, the \<open>KeyError\<close> of a field it lacks otherwise.
\<close>

definition format_outcome :: "pydict \<Rightarrow> string list \<Rightarrow> py_error + string \<Rightarrow> bool" where
  "format_outcome ctx names r =
    (case r of
       Inr p \<Rightarrow> list_all (dict_has ctx) names
     | Inl e \<Rightarrow> list_ex (\<lambda>k. e = KeyError k \<and> \<not> dict_has ctx k) names)"

text \<open>
  The judge reply of the spec's scenario, and the object embedded in it; a reply that is a
  JSON array of the two required key names, and one for the audit; a reply that is an object
  without \<^verbatim>\<open>confidence\<close>.
\<close>

definition judge_scenario :: string where
  "judge_scenario =
     ''The court finds in favor of the plaintiff. {'' @ [CHR 0x22] @ ''verdict'' @ [CHR 0x22] @ '': ''
     @ [CHR 0x22] @ ''FAVOR_PLAINTIFF'' @ [CHR 0x22] @ '', '' @ [CHR 0x22] @ ''confidence'' @ [CHR 0x22]
     @ '': 88, '' @ [CHR 0x22] @ ''reasoning'' @ [CHR 0x22] @ '': ['' @ [CHR 0x22] @ ''clear breach''
     @ [CHR 0x22] @ ''], '' @ [CHR 0x22] @ ''supporting_evidence'' @ [CHR 0x22] @ '': ['' @ [CHR 0x22]
     @ ''contract clause 4'' @ [CHR 0x22] @ '']}''"

definition scenario_object :: string where
  "scenario_object =
     ''{'' @ [CHR 0x22] @ ''verdict'' @ [CHR 0x22] @ '': ''
     @ [CHR 0x22] @ ''FAVOR_PLAINTIFF'' @ [CHR 0x22] @ '', '' @ [CHR 0x22] @ ''confidence'' @ [CHR 0x22]
     @ '': 88, '' @ [CHR 0x22] @ ''reasoning'' @ [CHR 0x22] @ '': ['' @ [CHR 0x22] @ ''clear breach''
     @ [CHR 0x22] @ ''], '' @ [CHR 0x22] @ ''supporting_evidence'' @ [CHR 0x22] @ '': ['' @ [CHR 0x22]
     @ ''contract clause 4'' @ [CHR 0x22] @ '']}''"

definition array_reply :: string where
  "array_reply = ''['' @ [CHR 0x22] @ ''verdict'' @ [CHR 0x22] @ '', '' @ [CHR 0x22] @ ''confidence''
     @ [CHR 0x22] @ '']''"

definition array_audit_reply :: string where
  "array_audit_reply = ''['' @ [CHR 0x22] @ ''fairness_score'' @ [CHR 0x22] @ '']''"

definition partial_reply :: string where
  "partial_reply = ''{'' @ [CHR 0x22] @ ''verdict'' @ [CHR 0x22] @ '': '' @ [CHR 0x22]
     @ ''FAVOR_PLAINTIFF'' @ [CHR 0x22] @ ''}''"

text \<open>
  The language of the pattern \<^verbatim>\<open>\{[^{}]*(?:\{[^{}]*\}[^{}]*)*\}\<close> of the extraction, read off
  the pattern: after the opening brace, a run of non-brace characters, then any number of
  groups (a brace pair around non-brace characters, followed by a run of non-brace
  characters), then the closing brace.
\<close>

definition brace_free :: "string \<Rightarrow> bool" where
  "brace_free s = (CHR ''{'' \<notin> set s \<and> CHR ''}'' \<notin> set s)"

inductive pattern_tail :: "string \<Rightarrow> bool" where
  closing: "brace_free a \<Longrightarrow> pattern_tail (a @ ''}'')"
| group: "brace_free a \<Longrightarrow> brace_free b \<Longrightarrow> pattern_tail u \<Longrightarrow> pattern_tail (a @ ''{'' @ b @ ''}'' @ u)"

definition pattern_match :: "string \<Rightarrow> bool" where
  "pattern_match m = (\<exists>u. m = CHR ''{'' # u \<and> pattern_tail u)"

text \<open>
  An environment whose templates name \<^verbatim>\<open>facts\<close> and \<^verbatim>\<open>issues\<close>, and whose model fails on
  its second invocation and otherwise echoes the prompt; one whose templates name a field no
  context has; a processed case; and a store holding an unprocessed case \<^verbatim>\<open>c1\<close> and a
  processed, not yet simulated case \<^verbatim>\<open>c2\<close>.
\<close>

definition demo_env :: env where
  "demo_env =
    \<lparr>templates = (\<lambda>agent_type. ''Facts: {facts} Issues: {issues} {{verbatim}}''),
     llm = (\<lambda>k system prompt. if k = 1 then Inl ''Connection error.'' else Inr ('' Reply to: '' @ prompt @ '' '')),
     py_str = (\<lambda>v. ''?'')\<rparr>"

definition broken_env :: env where
  "broken_env =
    \<lparr>templates = (\<lambda>agent_type. ''{missing}''),
     llm = (\<lambda>k system prompt. Inr ''reply''),
     py_str = (\<lambda>v. ''?'')\<rparr>"

definition demo_case :: pydict where
  "demo_case = [(''facts'', JString ''F''), (''issues'', JString ''I'')]"

definition demo_store :: store where
  "demo_store =
    (\<lambda>case_id. if case_id = ''c1'' then Some [(''raw_text'', JString ''x'')]
                else if case_id = ''c2'' then Some [(''facts'', JString ''F''), (''issues'', JString ''I'')]
                else None)"

section \<open>Properties\<close>

subsection \<open>Strings\<close>

lemma str_in_iff: "str_in needle hay \<longleftrightarrow> (\<exists>pre post. hay = pre @ needle @ post)"
proof (induction hay)
  case Nil
  then show ?case by auto
next
  case (Cons c cs)
  show ?case
  proof
    assume "str_in needle (c # cs)"
    then consider "prefix needle (c # cs)" | "str_in needle cs" by auto
    then show "\<exists>pre post. c # cs = pre @ needle @ post"
    proof cases
      case 1
      then obtain post where "c # cs = needle @ post" by (auto simp: prefix_def)
      then have "c # cs = [] @ needle @ post" by simp
      then show ?thesis by blast
    next
      case 2
      with Cons.IH obtain pre post where "cs = pre @ needle @ post" by blast
      then have "c # cs = (c # pre) @ needle @ post" by simp
      then show ?thesis by blast
    qed
  next
    assume "\<exists>pre post. c # cs = pre @ needle @ post"
    then obtain pre post where eq: "c # cs = pre @ needle @ post" by blast
    show "str_in needle (c # cs)"
    proof (cases pre)
      case Nil
      with eq have "prefix needle (c # cs)" by (simp add: prefix_def)
      then show ?thesis by simp
    next
      case (Cons p ps)
      with eq have "cs = ps @ needle @ post" by simp
      with Cons.IH have "str_in needle cs" by blast
      then show ?thesis by simp
    qed
  qed
qed

subsection \<open>The brace pattern\<close>

text \<open>
  No word of the pattern's language is a proper prefix of another, so a match at a position
  is unique, and the scanner returns the match that \<^verbatim>\<open>re.search\<close> does: the one at the leftmost
  position where a word of the language starts.
\<close>

lemma pattern_tail_Cons:
  assumes "pattern_tail u" "c \<noteq> CHR ''{''" "c \<noteq> CHR ''}''"
  shows "pattern_tail (c # u)"
  using assms(1)
proof cases
  case (closing a)
  with assms(2,3) have "brace_free (c # a)" by (simp add: brace_free_def)
  from pattern_tail.closing [OF this] closing show ?thesis by simp
next
  case (group a b v)
  with assms(2,3) have "brace_free (c # a)" by (simp add: brace_free_def)
  from pattern_tail.group [OF this group(3,4)] group(1) show ?thesis by simp
qed

lemma brace_body_sound:
  "brace_body nested s = Some m \<Longrightarrow>
   (\<exists>post. s = m @ post)
   \<and> (if nested then \<exists>b u. m = b @ ''}'' @ u \<and> brace_free b \<and> pattern_tail u
       else pattern_tail m)"
proof (induction s arbitrary: nested m)
  case Nil
  then show ?case by simp
next
  case (Cons c cs)
  consider (cl_in) "c = CHR ''}''" "nested"
    | (cl_out) "c = CHR ''}''" "\<not> nested"
    | (op_out) "c = CHR ''{''" "\<not> nested"
    | (op_in) "c = CHR ''{''" "nested"
    | (other) "c \<noteq> CHR ''}''" "c \<noteq> CHR ''{''"
    by blast
  then show ?case
  proof cases
    case cl_in
    with Cons.prems obtain m' where m: "m = c # m'" and b: "brace_body False cs = Some m'" by auto
    from Cons.IH [OF b] have p: "\<exists>post. cs = m' @ post" and t: "pattern_tail m'" by simp_all
    have "m = [] @ ''}'' @ m' \<and> brace_free [] \<and> pattern_tail m'"
      using m cl_in t by (simp add: brace_free_def)
    then have "\<exists>b u. m = b @ ''}'' @ u \<and> brace_free b \<and> pattern_tail u" by blast
    with p m cl_in show ?thesis by auto
  next
    case cl_out
    with Cons.prems have m: "m = [c]" by simp
    have "pattern_tail ([] @ ''}'')" by (rule pattern_tail.closing) (simp add: brace_free_def)
    with m cl_out show ?thesis by simp
  next
    case op_out
    with Cons.prems obtain m' where m: "m = c # m'" and b: "brace_body True cs = Some m'" by auto
    from Cons.IH [OF b] obtain bb u where p: "\<exists>post. cs = m' @ post"
      and m': "m' = bb @ ''}'' @ u" and bf: "brace_free bb" and t: "pattern_tail u"
      by auto
    have "brace_free []" by (simp add: brace_free_def)
    from pattern_tail.group [OF this bf t] have "pattern_tail m" using m m' op_out by simp
    with p m op_out show ?thesis by auto
  next
    case op_in
    with Cons.prems show ?thesis by simp
  next
    case other
    with Cons.prems obtain m' where m: "m = c # m'" and b: "brace_body nested cs = Some m'" by auto
    note ih = Cons.IH [OF b]
    then have p: "\<exists>post. cs = m' @ post" by simp
    show ?thesis
    proof (cases nested)
      case True
      with ih obtain bb u where m': "m' = bb @ ''}'' @ u" and bf: "brace_free bb" and t: "pattern_tail u"
        by auto
      have "m = (c # bb) @ ''}'' @ u \<and> brace_free (c # bb) \<and> pattern_tail u"
        using m m' bf t other by (simp add: brace_free_def)
      then have "\<exists>b u. m = b @ ''}'' @ u \<and> brace_free b \<and> pattern_tail u" by blast
      with p m True show ?thesis by auto
    next
      case False
      with ih have "pattern_tail m'" by simp
      from pattern_tail_Cons [OF this other(2,1)] p m False show ?thesis by auto
    qed
  qed
qed

lemma brace_body_skip:
  "brace_free a \<Longrightarrow> brace_body nested (a @ rest) = map_option ((@) a) (brace_body nested rest)"
proof (induction a)
  case Nil
  show ?case by (cases "brace_body nested rest") simp_all
next
  case (Cons c a)
  then have c: "c \<noteq> CHR ''{''" "c \<noteq> CHR ''}''" and a: "brace_free a"
    by (auto simp: brace_free_def)
  from Cons.IH [OF a] c show ?case
    by (cases "brace_body nested rest") simp_all
qed

lemma brace_body_complete:
  "pattern_tail m \<Longrightarrow> brace_body False (m @ post) = Some m"
proof (induction arbitrary: post rule: pattern_tail.induct)
  case (closing a)
  then show ?case by (simp add: brace_body_skip)
next
  case (group a b u)
  have "brace_body False ((a @ ''{'' @ b @ ''}'' @ u) @ post)
      = map_option ((@) a) (brace_body False (CHR ''{'' # b @ CHR ''}'' # u @ post))"
    using brace_body_skip [OF group.hyps(1), of False] by simp
  also have "brace_body False (CHR ''{'' # b @ CHR ''}'' # u @ post)
      = map_option ((#) CHR ''{'') (brace_body True (b @ CHR ''}'' # u @ post))"
    by simp
  also have "brace_body True (b @ CHR ''}'' # u @ post)
      = map_option ((@) b) (brace_body True (CHR ''}'' # u @ post))"
    using brace_body_skip [OF group.hyps(2), of True] by simp
  also have "brace_body True (CHR ''}'' # u @ post) = Some (CHR ''}'' # u)"
    using group.IH [of post] by simp
  finally show ?case by simp
qed

lemma brace_body_iff:
  "brace_body False s = Some m \<longleftrightarrow> (\<exists>post. s = m @ post \<and> pattern_tail m)"
  using brace_body_sound [of False s m] brace_body_complete [of m] by auto

lemma re_search_braces_sound:
  "re_search_braces s = Some m \<Longrightarrow>
   \<exists>pre post. s = pre @ m @ post \<and> pattern_match m
     \<and> (\<forall>pre' m' post'. s = pre' @ m' @ post' \<and> pattern_match m' \<longrightarrow> length pre \<le> length pre')"
proof (induction s)
  case Nil
  then show ?case by simp
next
  case (Cons c cs)
  show ?case
  proof (cases "c = CHR ''{'' \<and> brace_body False cs \<noteq> None")
    case True
    then obtain u where u: "brace_body False cs = Some u" by auto
    with True Cons.prems have m: "m = c # u" by simp
    from u obtain post where "cs = u @ post" and "pattern_tail u" by (auto simp: brace_body_iff)
    with m True have "c # cs = [] @ m @ post \<and> pattern_match m" by (simp add: pattern_match_def)
    then show ?thesis by (metis list.size(3) le0)
  next
    case False
    with Cons.prems have r: "re_search_braces cs = Some m" by (auto split: option.splits if_splits)
    from Cons.IH [OF r] obtain pre post where
      s: "cs = pre @ m @ post" and pm: "pattern_match m"
      and least: "\<forall>pre' m' post'. cs = pre' @ m' @ post' \<and> pattern_match m' \<longrightarrow> length pre \<le> length pre'"
      by blast
    have "length (c # pre) \<le> length pre'"
      if "c # cs = pre' @ m' @ post' \<and> pattern_match m'" for pre' m' post'
    proof (cases pre')
      case Nil
      with that obtain u where "m' = CHR ''{'' # u" "pattern_tail u" "c # cs = m' @ post'"
        by (auto simp: pattern_match_def)
      then have "c = CHR ''{''" and "brace_body False cs = Some u"
        using brace_body_complete [of u post'] by auto
      with False show ?thesis by simp
    next
      case (Cons p ps)
      with that have "cs = ps @ m' @ post' \<and> pattern_match m'" by simp
      with least have "length pre \<le> length ps" by blast
      with Cons show ?thesis by simp
    qed
    moreover have "c # cs = (c # pre) @ m @ post" using s by simp
    ultimately show ?thesis using pm by blast
  qed
qed

lemma re_search_braces_none:
  "re_search_braces s = None \<Longrightarrow> \<not> (\<exists>pre m post. s = pre @ m @ post \<and> pattern_match m)"
proof (induction s)
  case Nil
  then show ?case by (simp add: pattern_match_def)
next
  case (Cons c cs)
  from Cons.prems have r: "re_search_braces cs = None"
    and b: "c = CHR ''{'' \<longrightarrow> brace_body False cs = None"
    by (auto split: option.splits if_splits)
  show ?case
  proof
    assume "\<exists>pre m post. c # cs = pre @ m @ post \<and> pattern_match m"
    then obtain pre m post where s: "c # cs = pre @ m @ post" and pm: "pattern_match m" by blast
    show False
    proof (cases pre)
      case Nil
      with s pm obtain u where "m = CHR ''{'' # u" "pattern_tail u" "c # cs = m @ post"
        by (auto simp: pattern_match_def)
      then have "c = CHR ''{''" and "brace_body False cs = Some u"
        using brace_body_complete [of u post] by auto
      with b show False by simp
    next
      case (Cons p ps)
      with s have "cs = ps @ m @ post" by simp
      with pm Cons.IH [OF r] show False by blast
    qed
  qed
qed

lemma re_search_braces_leftmost:
  "re_search_braces s = Some m \<longleftrightarrow>
   (\<exists>pre post. s = pre @ m @ post \<and> pattern_match m
     \<and> (\<forall>pre' m' post'. s = pre' @ m' @ post' \<and> pattern_match m' \<longrightarrow> length pre \<le> length pre'))"
proof
  assume "re_search_braces s = Some m"
  then show "\<exists>pre post. s = pre @ m @ post \<and> pattern_match m
     \<and> (\<forall>pre' m' post'. s = pre' @ m' @ post' \<and> pattern_match m' \<longrightarrow> length pre \<le> length pre')"
    by (rule re_search_braces_sound)
next
  assume "\<exists>pre post. s = pre @ m @ post \<and> pattern_match m
     \<and> (\<forall>pre' m' post'. s = pre' @ m' @ post' \<and> pattern_match m' \<longrightarrow> length pre \<le> length pre')"
  then obtain pre post where s: "s = pre @ m @ post" and pm: "pattern_match m"
    and least: "\<forall>pre' m' post'. s = pre' @ m' @ post' \<and> pattern_match m' \<longrightarrow> length pre \<le> length pre'"
    by blast
  from s pm re_search_braces_none [of s] obtain m0 where r: "re_search_braces s = Some m0"
    by (cases "re_search_braces s") blast+
  from re_search_braces_sound [OF r] obtain pre0 post0 where
    s0: "s = pre0 @ m0 @ post0" and pm0: "pattern_match m0"
    and least0: "\<forall>pre' m' post'. s = pre' @ m' @ post' \<and> pattern_match m' \<longrightarrow> length pre0 \<le> length pre'"
    by blast
  from least s0 pm0 have "length pre \<le> length pre0" by blast
  moreover from least0 s pm have "length pre0 \<le> length pre" by blast
  ultimately have "length pre = length pre0" by simp
  with s s0 have eq: "m @ post = m0 @ post0" by (metis append_eq_append_conv)
  from pm obtain u where u: "m = CHR ''{'' # u" "pattern_tail u" by (auto simp: pattern_match_def)
  from pm0 obtain u0 where u0: "m0 = CHR ''{'' # u0" "pattern_tail u0" by (auto simp: pattern_match_def)
  from eq u u0 have "u @ post = u0 @ post0" by simp
  with brace_body_complete [OF u(2), of post] brace_body_complete [OF u0(2), of post0]
  have "u = u0" by simp
  with u u0 r show "re_search_braces s = Some m" by simp
qed

text \<open>The definitions that evaluate the library models on a concrete text.\<close>

lemmas json_eval =
  json_loads_def skip_ws_def json_ws_def is_control_def control_chars_def
  match_number_def match_sign_def match_integer_def match_frac_def match_exp_def is_digit_def
  nat_of_digits_def digit_val_def dict_of_pairs_def backslash_char_def

lemmas lower_eval = lower_def lower_char_def upper_letters_def lower_letters_def

lemmas format_eval =
  format_template_def get_field_def is_digit_def compound_chars_def py_format_def

subsection \<open>The fallback bias scan\<close>

text \<open>
  The keywords of the lexicon are pairwise distinct, and so are its categories, so the two
  lists the scan builds are the matched keywords and the categories with a match, each in
  lexicon order.
\<close>

lemma check_keyword_fst:
  "fst (check_keyword t bt (f, b) k) = (if str_in k t \<and> k \<notin> set f then f @ [k] else f)"
  by (simp add: check_keyword_def)

lemma check_keyword_snd:
  "snd (check_keyword t bt (f, b) k) = (if str_in k t \<and> bt \<notin> set b then b @ [bt] else b)"
  by (simp add: check_keyword_def)

lemma foldl_check_keyword_fst:
  "distinct (f @ ks) \<Longrightarrow>
   fst (foldl (check_keyword t bt) (f, b) ks) = f @ filter (\<lambda>k. str_in k t) ks"
proof (induction ks arbitrary: f b)
  case Nil
  then show ?case by simp
next
  case (Cons k ks)
  obtain f' b' where st: "check_keyword t bt (f, b) k = (f', b')" by (cases "check_keyword t bt (f, b) k")
  from Cons.prems have knf: "k \<notin> set f" by auto
  have f': "f' = (if str_in k t then f @ [k] else f)"
    using check_keyword_fst [of t bt f b k] st knf by simp
  from Cons.prems have "distinct (f' @ ks)" by (auto simp: f')
  from Cons.IH [OF this] show ?case by (simp add: st f')
qed

lemma foldl_check_keyword_snd:
  "snd (foldl (check_keyword t bt) (f, b) ks) =
   (if list_ex (\<lambda>k. str_in k t) ks \<and> bt \<notin> set b then b @ [bt] else b)"
proof (induction ks arbitrary: f b)
  case Nil
  then show ?case by simp
next
  case (Cons k ks)
  obtain f' b' where st: "check_keyword t bt (f, b) k = (f', b')" by (cases "check_keyword t bt (f, b) k")
  have b': "b' = (if str_in k t \<and> bt \<notin> set b then b @ [bt] else b)"
    using check_keyword_snd [of t bt f b k] st by simp
  show ?case using Cons.IH [of f' b'] by (auto simp: st b')
qed

lemma foldl_scan_category_fst:
  "distinct (f @ concat (map snd cats)) \<Longrightarrow>
   fst (foldl (scan_category t) (f, b) cats) = f @ filter (\<lambda>k. str_in k t) (concat (map snd cats))"
proof (induction cats arbitrary: f b)
  case Nil
  then show ?case by simp
next
  case (Cons c cats)
  obtain bt ks where c: "c = (bt, ks)" by (cases c)
  obtain f' b' where st: "foldl (check_keyword t bt) (f, b) ks = (f', b')"
    by (cases "foldl (check_keyword t bt) (f, b) ks")
  from Cons.prems have d1: "distinct (f @ ks)" by (auto simp: c)
  have f': "f' = f @ filter (\<lambda>k. str_in k t) ks"
    using foldl_check_keyword_fst [OF d1, of t bt b] st by simp
  from Cons.prems have "distinct (f' @ concat (map snd cats))" by (auto simp: c f')
  from Cons.IH [OF this] show ?case by (simp add: c st f' scan_category_def)
qed

lemma foldl_scan_category_snd:
  "distinct (b @ map fst cats) \<Longrightarrow>
   snd (foldl (scan_category t) (f, b) cats) =
     b @ map fst (filter (\<lambda>c. list_ex (\<lambda>k. str_in k t) (snd c)) cats)"
proof (induction cats arbitrary: f b)
  case Nil
  then show ?case by simp
next
  case (Cons c cats)
  obtain bt ks where c: "c = (bt, ks)" by (cases c)
  obtain f' b' where st: "foldl (check_keyword t bt) (f, b) ks = (f', b')"
    by (cases "foldl (check_keyword t bt) (f, b) ks")
  from Cons.prems have nb: "bt \<notin> set b" by (auto simp: c)
  have b': "b' = (if list_ex (\<lambda>k. str_in k t) ks then b @ [bt] else b)"
    using foldl_check_keyword_snd [of t bt f b ks] st nb by simp
  from Cons.prems have "distinct (b' @ map fst cats)" by (auto simp: c b')
  from Cons.IH [OF this] show ?case by (simp add: c st b' scan_category_def)
qed

lemma distinct_all_keywords: "distinct all_keywords"
  by (simp add: all_keywords_def bias_keywords_def)

lemma fst_scan_bias: "fst (scan_bias t) = filter (\<lambda>k. str_in k t) all_keywords"
  using foldl_scan_category_fst [of "[]" bias_keywords t "[]"] distinct_all_keywords
  by (simp add: scan_bias_def all_keywords_def)

lemma snd_scan_bias:
  "snd (scan_bias t) = map fst (filter (\<lambda>c. list_ex (\<lambda>k. str_in k t) (snd c)) bias_keywords)"
proof -
  have "distinct ([] @ map fst bias_keywords)" by (simp add: bias_keywords_def)
  from foldl_scan_category_snd [OF this, of t "[]"] show ?thesis by (simp add: scan_bias_def)
qed

lemma found_biases_matched: "fst (scan_bias (lower s)) = matched_keywords s"
  by (simp add: fst_scan_bias matched_keywords_def)

lemma length_matched: "length (matched_keywords s) = card {k \<in> set all_keywords. str_in k (lower s)}"
proof -
  have "distinct (matched_keywords s)"
    using distinct_all_keywords by (simp add: matched_keywords_def)
  then have "length (matched_keywords s) = card (set (matched_keywords s))"
    by (simp add: distinct_card)
  also have "set (matched_keywords s) = {k \<in> set all_keywords. str_in k (lower s)}"
    by (auto simp: matched_keywords_def)
  finally show ?thesis .
qed

lemma fairness_score_value:
  "json_get (simple_bias_detection s) ''fairness_score'' =
   Some (JInt (max 50 (100 - 5 * int (length (matched_keywords s)))))"
proof -
  obtain f b where sb: "scan_bias (lower s) = (f, b)" by (cases "scan_bias (lower s)")
  then have "f = matched_keywords s" using found_biases_matched [of s] by simp
  then show ?thesis
    by (simp add: simple_bias_detection_def sb json_get_def fairness_of_def Let_def mult.commute)
qed

lemma bias_detection_fields:
  "json_get (simple_bias_detection s) ''biased_terms''
      = Some (JArray (map JString (take 10 (matched_keywords s))))"
  "json_get (simple_bias_detection s) ''bias_types''
      = Some (JArray (map JString
          (map fst (filter (\<lambda>c. list_ex (\<lambda>k. str_in k (lower s)) (snd c)) bias_keywords))))"
proof -
  obtain f b where sb: "scan_bias (lower s) = (f, b)" by (cases "scan_bias (lower s)")
  have f: "f = matched_keywords s" using found_biases_matched [of s] sb by simp
  have b: "b = map fst (filter (\<lambda>c. list_ex (\<lambda>k. str_in k (lower s)) (snd c)) bias_keywords)"
    using snd_scan_bias [of "lower s"] sb by simp
  show "json_get (simple_bias_detection s) ''biased_terms''
      = Some (JArray (map JString (take 10 (matched_keywords s))))"
    by (simp add: simple_bias_detection_def sb json_get_def Let_def f)
  show "json_get (simple_bias_detection s) ''bias_types''
      = Some (JArray (map JString
          (map fst (filter (\<lambda>c. list_ex (\<lambda>k. str_in k (lower s)) (snd c)) bias_keywords))))"
    by (simp add: simple_bias_detection_def sb json_get_def Let_def b)
qed

lemma matched_nothing: "matched_keywords ''nothing to find'' = []"
  by (simp add: matched_keywords_def all_keywords_def bias_keywords_def lower_def lower_char_def
      upper_letters_def lower_letters_def)

lemma matched_ten:
  "matched_keywords ''She and he: a female Hindu woman from a rural village of the north'' =
     [''he'', ''she'', ''man'', ''woman'', ''male'', ''female'', ''north'', ''rural'', ''village'', ''hindu'']"
  by (simp add: matched_keywords_def all_keywords_def bias_keywords_def lower_def lower_char_def
      upper_letters_def lower_letters_def)

lemma matched_historical: "matched_keywords ''historical'' = [''his'']"
  by (simp add: matched_keywords_def all_keywords_def bias_keywords_def lower_def lower_char_def
      upper_letters_def lower_letters_def)

lemma historical_values:
  "json_get (simple_bias_detection ''historical'') ''fairness_score'' = Some (JInt 95)"
  "json_get (simple_bias_detection ''historical'') ''biased_terms'' = Some (JArray [JString ''his''])"
  "json_get (simple_bias_detection ''historical'') ''bias_types'' = Some (JArray [JString ''gender''])"
proof -
  show "json_get (simple_bias_detection ''historical'') ''fairness_score'' = Some (JInt 95)"
    using fairness_score_value [of "''historical''"] by (simp add: matched_historical)
  show "json_get (simple_bias_detection ''historical'') ''biased_terms'' = Some (JArray [JString ''his''])"
    using bias_detection_fields(1) [of "''historical''"] by (simp add: matched_historical)
  show "json_get (simple_bias_detection ''historical'') ''bias_types'' = Some (JArray [JString ''gender''])"
    using bias_detection_fields(2) [of "''historical''"]
    by (simp add: bias_keywords_def lower_def lower_char_def upper_letters_def lower_letters_def)
qed

text \<open>
  Claim C5. For every input text, the fallback bias scan returns
  \<open>fairness_score = max 50 (100 - 5 * n)\<close>, where \<open>n\<close> is the number of distinct keywords of
  the lexicon that occur in the lower-cased text; a text with no matched keyword yields 100,
  a text with ten or more distinct matched keywords yields 50.
\<close>

theorem fallback_fairness_score:
  "json_get (simple_bias_detection s) ''fairness_score'' =
     Some (JInt (max 50 (100 - 5 * int (card {k \<in> set all_keywords. str_in k (lower s)}))))
   \<and> (card {k \<in> set all_keywords. str_in k (lower s)} = 0 \<longrightarrow>
        json_get (simple_bias_detection s) ''fairness_score'' = Some (JInt 100))
   \<and> (10 \<le> card {k \<in> set all_keywords. str_in k (lower s)} \<longrightarrow>
        json_get (simple_bias_detection s) ''fairness_score'' = Some (JInt 50))"
proof -
  define n where "n = card {k \<in> set all_keywords. str_in k (lower s)}"
  have v: "json_get (simple_bias_detection s) ''fairness_score'' = Some (JInt (max 50 (100 - 5 * int n)))"
    using fairness_score_value [of s] length_matched [of s] by (simp add: n_def)
  have z: "n = 0 \<longrightarrow> json_get (simple_bias_detection s) ''fairness_score'' = Some (JInt 100)"
    by (simp add: v)
  have f: "10 \<le> n \<longrightarrow> json_get (simple_bias_detection s) ''fairness_score'' = Some (JInt 50)"
    by (simp add: v)
  from v z f show ?thesis unfolding n_def by blast
qed

text \<open>
  The theorem of C5 at a text without a keyword and at a text with ten distinct ones.
\<close>

theorem fallback_fairness_score_witness:
  "json_get (simple_bias_detection ''nothing to find'') ''fairness_score'' = Some (JInt 100)
   \<and> json_get (simple_bias_detection ''She and he: a female Hindu woman from a rural village of the north'')
         ''fairness_score'' = Some (JInt 50)"
proof -
  have a: "card {k \<in> set all_keywords. str_in k (lower ''nothing to find'')} = 0"
    using length_matched [of "''nothing to find''"] matched_nothing by simp
  have b: "10 \<le> card {k \<in> set all_keywords.
      str_in k (lower ''She and he: a female Hindu woman from a rural village of the north'')}"
    using length_matched [of "''She and he: a female Hindu woman from a rural village of the north''"]
      matched_ten by simp
  show ?thesis
    using fallback_fairness_score [of "''nothing to find''"]
      fallback_fairness_score [of "''She and he: a female Hindu woman from a rural village of the north''"] a b
    by blast
qed

text \<open>
  Claim C6, as stated, fails: the claim has the scan of the text \<^verbatim>\<open>historical\<close> match no
  keyword and return \<open>fairness_score = 100\<close> with empty \<open>bias_types\<close>, but the text holds the
  keyword \<^verbatim>\<open>his\<close> as a substring.
\<close>

theorem historical_matches_his_counterexample:
  "\<not> (matched_keywords ''historical'' = []
      \<and> json_get (simple_bias_detection ''historical'') ''fairness_score'' = Some (JInt 100)
      \<and> json_get (simple_bias_detection ''historical'') ''bias_types'' = Some (JArray []))"
  by (simp add: matched_historical)

text \<open>
  Claim C6, amended. The fallback bias scan decides each keyword of the lexicon by substring
  containment in the lower-cased full input text, with no word boundaries: the reported
  terms are the first ten keywords, in lexicon order, that occur in it, and the reported
  categories those with a keyword that occurs. So the text \<^verbatim>\<open>historical\<close>, which contains
  \<^verbatim>\<open>his\<close>, matches exactly that keyword, with \<open>fairness_score = 95\<close>,
  \<open>biased_terms = [his]\<close> and \<open>bias_types = [gender]\<close>.
\<close>

theorem bias_scan_is_substring_match:
  "json_get (simple_bias_detection s) ''biased_terms''
      = Some (JArray (map JString (take 10 (filter (\<lambda>k. str_in k (lower s)) all_keywords))))
   \<and> json_get (simple_bias_detection s) ''bias_types''
      = Some (JArray (map JString
          (map fst (filter (\<lambda>c. list_ex (\<lambda>k. str_in k (lower s)) (snd c)) bias_keywords))))
   \<and> (\<exists>pre post. ''historical'' = pre @ ''his'' @ post)
   \<and> filter (\<lambda>k. str_in k (lower ''historical'')) all_keywords = [''his'']
   \<and> json_get (simple_bias_detection ''historical'') ''fairness_score'' = Some (JInt 95)
   \<and> json_get (simple_bias_detection ''historical'') ''biased_terms'' = Some (JArray [JString ''his''])
   \<and> json_get (simple_bias_detection ''historical'') ''bias_types'' = Some (JArray [JString ''gender''])"
proof -
  have "''historical'' = [] @ ''his'' @ ''torical''" by simp
  then have ex: "\<exists>pre post. ''historical'' = pre @ ''his'' @ post" by blast
  have m: "filter (\<lambda>k. str_in k (lower ''historical'')) all_keywords = [''his'']"
    using matched_historical by (simp add: matched_keywords_def)
  from bias_detection_fields [of s] ex m historical_values show ?thesis
    by (simp add: matched_keywords_def)
qed

subsection \<open>Structured result extraction\<close>

lemma parse_judge_scenario:
  "re_search_braces judge_scenario = Some scenario_object"
  by (simp add: judge_scenario_def scenario_object_def)

lemma loads_scenario_object:
  "json_loads scenario_object = Inr (JObject
       [(''verdict'', JString ''FAVOR_PLAINTIFF''),
        (''confidence'', JInt 88),
        (''reasoning'', JArray [JString ''clear breach'']),
        (''supporting_evidence'', JArray [JString ''contract clause 4''])])"
  by (simp add: scenario_object_def json_eval)

lemma str_in_lower_iff:
  "str_in k (lower t) \<longleftrightarrow> (\<exists>pre mid post. t = pre @ mid @ post \<and> lower mid = k)"
proof
  assume "str_in k (lower t)"
  then obtain a b where "map lower_char t = a @ k @ b"
    by (auto simp: str_in_iff lower_def)
  then obtain pre rest where t: "t = pre @ rest" and "map lower_char rest = k @ b"
    by (metis map_eq_append_conv)
  then obtain mid post where "rest = mid @ post" and "map lower_char mid = k"
    by (metis map_eq_append_conv)
  with t have "t = pre @ mid @ post \<and> lower mid = k" by (simp add: lower_def)
  then show "\<exists>pre mid post. t = pre @ mid @ post \<and> lower mid = k" by blast
next
  assume "\<exists>pre mid post. t = pre @ mid @ post \<and> lower mid = k"
  then obtain pre mid post where "t = pre @ mid @ post" and "lower mid = k" by blast
  then have "lower t = lower pre @ k @ lower post" by (auto simp: lower_def)
  then show "str_in k (lower t)" by (auto simp: str_in_iff)
qed

lemma extract_verdict_fallback:
  assumes "parse_response response_text = Inl e
    \<or> (\<exists>parsed. parse_response response_text = Inr parsed
          \<and> \<not> (py_in ''verdict'' parsed = Inr True \<and> py_in ''confidence'' parsed = Inr True))"
  shows "extract_verdict response_text = verdict_fallback response_text"
  using assms by (auto simp: extract_verdict_def try_verdict_def split: sum.splits bool.splits option.splits)

lemma extract_verdict_cases:
  "extract_verdict t = verdict_fallback t
   \<or> (parse_response t = Inr (extract_verdict t)
       \<and> py_in ''verdict'' (extract_verdict t) = Inr True
       \<and> py_in ''confidence'' (extract_verdict t) = Inr True)"
  by (auto simp: extract_verdict_def try_verdict_def split: sum.splits option.splits bool.splits)

text \<open>
  Claim C3. For every raw judge text in which no structured object parses (the parse of the
  brace match, or of the whole text when there is no match, raises), or in which what parses
  fails the test for the keys \<^verbatim>\<open>verdict\<close> and \<^verbatim>\<open>confidence\<close> (an object lacks one of them; the
  test raises on a number, a truth value or null), verdict extraction returns the fallback:
  \<open>verdict\<close> is \<open>FAVOR_PLAINTIFF\<close> if \<^verbatim>\<open>plaintiff\<close> occurs in the lower-cased text, that is,
  if the text has a part that reads \<^verbatim>\<open>plaintiff\<close> up to letter case, and \<open>FAVOR_DEFENDANT\<close>
  otherwise, \<open>confidence\<close> is 75, \<open>reasoning\<close> is the one-element list of the first 200
  characters of the text, and \<open>supporting_evidence\<close> is a fixed one-element list.
\<close>

theorem verdict_fallback_when_unparsed:
  assumes "parse_response response_text = Inl e
    \<or> (\<exists>parsed. parse_response response_text = Inr parsed
          \<and> \<not> (py_in ''verdict'' parsed = Inr True \<and> py_in ''confidence'' parsed = Inr True))"
  shows "extract_verdict response_text =
    JObject
      [(''verdict'', JString (if str_in ''plaintiff'' (lower response_text)
                              then ''FAVOR_PLAINTIFF'' else ''FAVOR_DEFENDANT'')),
       (''confidence'', JInt 75),
       (''reasoning'', JArray [JString (take 200 response_text)]),
       (''supporting_evidence'', JArray [JString ''Evidence from case facts''])]
    \<and> (str_in ''plaintiff'' (lower response_text)
         \<longleftrightarrow> (\<exists>pre mid post. response_text = pre @ mid @ post \<and> lower mid = ''plaintiff''))"
  using extract_verdict_fallback [OF assms] str_in_lower_iff [of "''plaintiff''" response_text]
  by (simp add: verdict_fallback_def)

text \<open>
  The theorem of C3 at the spec's scenario (no object, no \<^verbatim>\<open>plaintiff\<close>), at an object
  without \<^verbatim>\<open>confidence\<close> whose text holds \<^verbatim>\<open>PLAINTIFF\<close>, and at a text that parses as a
  number.
\<close>

theorem verdict_fallback_when_unparsed_witness:
  "extract_verdict ''I believe the defendant acted properly throughout.'' =
     JObject
      [(''verdict'', JString ''FAVOR_DEFENDANT''),
       (''confidence'', JInt 75),
       (''reasoning'', JArray [JString ''I believe the defendant acted properly throughout.'']),
       (''supporting_evidence'', JArray [JString ''Evidence from case facts''])]
   \<and> extract_verdict partial_reply =
     JObject
      [(''verdict'', JString ''FAVOR_PLAINTIFF''),
       (''confidence'', JInt 75),
       (''reasoning'', JArray [JString partial_reply]),
       (''supporting_evidence'', JArray [JString ''Evidence from case facts''])]
   \<and> extract_verdict ''42'' =
     JObject
      [(''verdict'', JString ''FAVOR_DEFENDANT''),
       (''confidence'', JInt 75),
       (''reasoning'', JArray [JString ''42'']),
       (''supporting_evidence'', JArray [JString ''Evidence from case facts''])]"
proof -
  have a: "parse_response ''I believe the defendant acted properly throughout.'' = Inl JSONDecodeError"
    by (simp add: parse_response_def json_eval)
  have b: "parse_response partial_reply = Inr (JObject [(''verdict'', JString ''FAVOR_PLAINTIFF'')])"
    by (simp add: parse_response_def partial_reply_def json_eval)
  have c: "\<not> (py_in ''verdict'' (JObject [(''verdict'', JString ''FAVOR_PLAINTIFF'')]) = Inr True
            \<and> py_in ''confidence'' (JObject [(''verdict'', JString ''FAVOR_PLAINTIFF'')]) = Inr True)"
    by (simp add: dict_has_def)
  have d: "\<not> str_in ''plaintiff'' (lower ''I believe the defendant acted properly throughout.'')"
    by (simp add: lower_eval)
  have e: "str_in ''plaintiff'' (lower partial_reply)"
    by (simp add: partial_reply_def lower_eval)
  have f: "take 200 partial_reply = partial_reply"
    by (simp add: partial_reply_def)
  have g: "parse_response ''42'' = Inr (JInt 42)"
    by (simp add: parse_response_def json_eval)
  have h: "\<not> (py_in ''verdict'' (JInt 42) = Inr True \<and> py_in ''confidence'' (JInt 42) = Inr True)"
    by simp
  have i: "\<not> str_in ''plaintiff'' (lower ''42'')"
    by (simp add: lower_eval)
  have A: "extract_verdict ''I believe the defendant acted properly throughout.'' =
     JObject
      [(''verdict'', JString ''FAVOR_DEFENDANT''),
       (''confidence'', JInt 75),
       (''reasoning'', JArray [JString ''I believe the defendant acted properly throughout.'']),
       (''supporting_evidence'', JArray [JString ''Evidence from case facts''])]"
    using verdict_fallback_when_unparsed [of "''I believe the defendant acted properly throughout.''" JSONDecodeError]
      a d by simp
  have B: "extract_verdict partial_reply =
     JObject
      [(''verdict'', JString ''FAVOR_PLAINTIFF''),
       (''confidence'', JInt 75),
       (''reasoning'', JArray [JString partial_reply]),
       (''supporting_evidence'', JArray [JString ''Evidence from case facts''])]"
    using verdict_fallback_when_unparsed [of partial_reply JSONDecodeError] b c e f by simp
  have C: "extract_verdict ''42'' =
     JObject
      [(''verdict'', JString ''FAVOR_DEFENDANT''),
       (''confidence'', JInt 75),
       (''reasoning'', JArray [JString ''42'']),
       (''supporting_evidence'', JArray [JString ''Evidence from case facts''])]"
    using verdict_fallback_when_unparsed [of "''42''" JSONDecodeError] g h i by simp
  from A B C show ?thesis by blast
qed

text \<open>
  Claim C4. For every raw judge text whose first brace match parses as an object holding
  both \<^verbatim>\<open>verdict\<close> and \<^verbatim>\<open>confidence\<close>, verdict extraction returns that object unchanged; for
  the judge reply of the spec's scenario the result is the embedded object, with confidence
  88.
\<close>

theorem verdict_pass_through:
  "(\<forall>m d. re_search_braces response_text = Some m \<and> json_loads m = Inr (JObject d)
        \<and> dict_has d ''verdict'' \<and> dict_has d ''confidence''
      \<longrightarrow> extract_verdict response_text = JObject d)
   \<and> extract_verdict judge_scenario =
      JObject
       [(''verdict'', JString ''FAVOR_PLAINTIFF''),
        (''confidence'', JInt 88),
        (''reasoning'', JArray [JString ''clear breach'']),
        (''supporting_evidence'', JArray [JString ''contract clause 4''])]"
proof -
  have g: "extract_verdict r = JObject d"
    if "re_search_braces r = Some m" "json_loads m = Inr (JObject d)"
       "dict_has d ''verdict''" "dict_has d ''confidence''" for r m d
    using that by (simp add: extract_verdict_def try_verdict_def parse_response_def)
  have "extract_verdict judge_scenario =
      JObject
       [(''verdict'', JString ''FAVOR_PLAINTIFF''),
        (''confidence'', JInt 88),
        (''reasoning'', JArray [JString ''clear breach'']),
        (''supporting_evidence'', JArray [JString ''contract clause 4''])]"
    by (rule g [OF parse_judge_scenario loads_scenario_object]) (simp_all add: dict_has_def)
  with g show ?thesis by blast
qed

text \<open>
  The theorem of C4 at the scenario, whose hypotheses hold there; the fallback of the same
  text would have had confidence 75.
\<close>

theorem verdict_pass_through_witness:
  "re_search_braces judge_scenario = Some scenario_object
   \<and> json_loads scenario_object = Inr (JObject
       [(''verdict'', JString ''FAVOR_PLAINTIFF''),
        (''confidence'', JInt 88),
        (''reasoning'', JArray [JString ''clear breach'']),
        (''supporting_evidence'', JArray [JString ''contract clause 4''])])
   \<and> extract_verdict judge_scenario = JObject
       [(''verdict'', JString ''FAVOR_PLAINTIFF''),
        (''confidence'', JInt 88),
        (''reasoning'', JArray [JString ''clear breach'']),
        (''supporting_evidence'', JArray [JString ''contract clause 4''])]
   \<and> verdict_fallback judge_scenario = JObject
       [(''verdict'', JString ''FAVOR_PLAINTIFF''),
        (''confidence'', JInt 75),
        (''reasoning'', JArray [JString (take 200 judge_scenario)]),
        (''supporting_evidence'', JArray [JString ''Evidence from case facts''])]"
proof -
  have k: "dict_has [(''verdict'', JString ''FAVOR_PLAINTIFF''),
        (''confidence'', JInt 88),
        (''reasoning'', JArray [JString ''clear breach'']),
        (''supporting_evidence'', JArray [JString ''contract clause 4''])] ''verdict''"
    "dict_has [(''verdict'', JString ''FAVOR_PLAINTIFF''),
        (''confidence'', JInt 88),
        (''reasoning'', JArray [JString ''clear breach'']),
        (''supporting_evidence'', JArray [JString ''contract clause 4''])] ''confidence''"
    by (simp_all add: dict_has_def)
  have p: "str_in ''plaintiff'' (lower judge_scenario)"
    by (simp add: judge_scenario_def lower_eval)
  show ?thesis
    using verdict_pass_through [of judge_scenario] parse_judge_scenario loads_scenario_object k p
    by (simp add: verdict_fallback_def)
qed

text \<open>
  Claim C2 says that verdict extraction always returns an object with the keys \<^verbatim>\<open>verdict\<close>
  and \<^verbatim>\<open>confidence\<close>, and audit extraction one with the key \<^verbatim>\<open>fairness_score\<close>. The
  extraction functions never raise (they are total: the \<^verbatim>\<open>except\<close> clause takes every
  exception of the \<^verbatim>\<open>try\<close> block, and the fallback raises none), but a reply that is a JSON
  array of the key names passes the membership tests of the code and is returned as it is:
  a list, not an object.
\<close>

theorem extraction_returns_non_object:
  "extract_verdict array_reply = JArray [JString ''verdict'', JString ''confidence'']
   \<and> extract_audit to_str ctx array_audit_reply = JArray [JString ''fairness_score'']"
  by (simp add: extract_verdict_def try_verdict_def extract_audit_def try_audit_def parse_response_def
      array_reply_def array_audit_reply_def json_eval)

subsection \<open>Agent invocation\<close>

lemma get_field_plain:
  "plain_name name \<Longrightarrow>
   get_field to_str ctx name =
     (case map_of ctx name of None \<Rightarrow> Inl (KeyError name) | Some v \<Rightarrow> Inr (py_format to_str v))"
  by (simp add: get_field_def plain_name_def)

lemma format_outcome_map_sum [simp]:
  "format_outcome ctx names (map_sum id f r) = format_outcome ctx names r"
  by (cases r) (simp_all add: format_outcome_def)

lemma format_plain_fields:
  "(\<forall>names. fields_literal t = Some names \<longrightarrow> list_all plain_name names \<longrightarrow>
      format_outcome ctx names (format_literal to_str ctx t))"
  "(\<forall>names. fields_field name t' = Some names \<longrightarrow> list_all plain_name names \<longrightarrow>
      format_outcome ctx names (format_field to_str ctx name t'))"
proof (induction to_str ctx t and to_str ctx name t' rule: format_literal_format_field.induct)
  case (1 to_str ctx)
  then show ?case by (simp add: format_outcome_def)
next
  case (2 to_str ctx c)
  then show ?case by (simp add: format_outcome_def)
next
  case (3 to_str ctx c d r)
  consider (open_open) "c = CHR ''{''" "d = CHR ''{''"
    | (open_field) "c = CHR ''{''" "d \<noteq> CHR ''{''"
    | (close_close) "c = CHR ''}''" "d = CHR ''}''"
    | (close_single) "c = CHR ''}''" "d \<noteq> CHR ''}''"
    | (other) "c \<noteq> CHR ''{''" "c \<noteq> CHR ''}''"
    by blast
  then show ?case
  proof cases
    case open_open
    with "3.IH"(1) show ?thesis by (simp del: format_field.simps fields_field.simps)
  next
    case open_field
    with "3.IH"(2) show ?thesis by (simp del: format_field.simps fields_field.simps)
  next
    case close_close
    with "3.IH"(3) show ?thesis by (simp del: format_field.simps fields_field.simps)
  next
    case close_single
    then show ?thesis by (simp del: format_field.simps fields_field.simps)
  next
    case other
    with "3.IH"(4) show ?thesis by (simp del: format_field.simps fields_field.simps)
  qed
next
  case (4 to_str ctx name)
  then show ?case by simp
next
  case (5 to_str ctx name c r)
  show ?case
  proof (cases "c = CHR ''}''")
    case True
    show ?thesis
    proof (intro allI impI)
      fix names
      assume f: "fields_field name (c # r) = Some names" and p: "list_all plain_name names"
      from f True obtain rest where rest: "fields_literal r = Some rest" and names: "names = name # rest"
        by auto
      from p names have pn: "plain_name name" and pr: "list_all plain_name rest" by simp_all
      show "format_outcome ctx names (format_field to_str ctx name (c # r))"
      proof (cases "map_of ctx name")
        case None
        then show ?thesis
          using True pn by (simp add: get_field_plain format_outcome_def names dict_has_def)
      next
        case (Some v)
        then have g: "get_field to_str ctx name = Inr (py_format to_str v)"
          using pn by (simp add: get_field_plain)
        have "format_outcome ctx rest (format_literal to_str ctx r)"
          using "5.IH"(1) [OF True g] rest pr by simp
        then show ?thesis
          using True g Some
          by (cases "format_literal to_str ctx r") (auto simp: format_outcome_def names dict_has_def)
      qed
    qed
  next
    case False
    then show ?thesis using "5.IH"(2) by simp
  qed
qed

lemma format_template_plain:
  assumes "plain_template template"
  shows "format_outcome ctx (placeholders template) (format_template to_str template ctx)"
proof -
  from assms obtain names where n: "fields_literal template = Some names" "list_all plain_name names"
    by (auto simp: plain_template_def split: option.splits)
  with format_plain_fields(1) [of template ctx to_str] show ?thesis
    by (simp add: placeholders_def format_template_def)
qed

lemma format_template_raises_iff:
  assumes "plain_template template"
  shows "(\<exists>e. format_template to_str template ctx = Inl e)
     \<longleftrightarrow> (\<exists>name \<in> set (placeholders template). \<not> dict_has ctx name)"
  using format_template_plain [OF assms, of ctx to_str]
  by (cases "format_template to_str template ctx")
     (auto simp: format_outcome_def list_all_iff list_ex_iff)

lemma format_template_error:
  assumes "plain_template template" "format_template to_str template ctx = Inl e"
  shows "\<exists>name \<in> set (placeholders template). e = KeyError name \<and> \<not> dict_has ctx name"
  using format_template_plain [OF assms(1), of ctx to_str] assms(2)
  by (auto simp: format_outcome_def list_ex_iff)

lemma renders_format:
  assumes "renders env agent_type (map fst ctx)"
  shows "\<exists>prompt. format_template (py_str env) (templates env agent_type) ctx = Inr prompt"
proof -
  from assms have p: "plain_template (templates env agent_type)"
    and s: "set (placeholders (templates env agent_type)) \<subseteq> fst ` set ctx"
    by (simp_all add: renders_def)
  have "\<not> (\<exists>name \<in> set (placeholders (templates env agent_type)). \<not> dict_has ctx name)"
    using s by (auto simp: dict_has_def map_of_eq_None_iff)
  with format_template_raises_iff [OF p, of "py_str env" ctx] show ?thesis
    by (cases "format_template (py_str env) (templates env agent_type) ctx") auto
qed

lemma generate_response_Inl:
  "generate_response env agent_type ctx w = (Inl e, w')
    \<longleftrightarrow> format_template (py_str env) (templates env agent_type) ctx = Inl e \<and> w' = w @ [(agent_type, ctx)]"
  by (auto simp: generate_response_def split: sum.splits)

lemma generate_response_Inr:
  assumes "format_template (py_str env) (templates env agent_type) ctx = Inr prompt"
  shows "generate_response env agent_type ctx w =
    (Inr (case llm env (length w) (system_message agent_type) prompt of
            Inr content \<Rightarrow> strip content
          | Inl msg \<Rightarrow> ''Error generating response: '' @ msg),
     w @ [(agent_type, ctx)])"
  using assms by (simp add: generate_response_def split: sum.splits)

lemma demo_plain: "plain_template (templates demo_env agent_type)"
  by (simp add: demo_env_def plain_template_def plain_name_def is_digit_def compound_chars_def)

lemma demo_placeholders: "placeholders (templates demo_env agent_type) = [''facts'', ''issues'']"
  by (simp add: demo_env_def placeholders_def)

lemma demo_renders:
  "renders demo_env ''plaintiff_lawyer'' [''facts'', ''issues'', ''holding'']"
  "renders demo_env ''defendant_lawyer'' [''facts'', ''issues'', ''holding'']"
  "renders demo_env ''judge'' [''facts'', ''issues'', ''holding'', ''plaintiff_arguments'', ''defendant_arguments'']"
  by (simp_all add: renders_def demo_plain demo_placeholders)

text \<open>
  Claim C7. With a prompt template whose replacement fields are plain names, agent
  invocation raises if and only if the context lacks a placeholder the template names, and
  what it raises is the \<open>KeyError\<close> of such a placeholder. Once the template has rendered,
  the invocation returns whatever the model call does: an exception of the call with message
  \<open>msg\<close> becomes the returned text \<^verbatim>\<open>Error generating response: msg\<close>, a response becomes
  its stripped content.
\<close>

theorem generate_response_raises_only_on_template_mismatch:
  "(plain_template (templates env agent_type) \<longrightarrow>
      ((\<exists>e w'. generate_response env agent_type ctx w = (Inl e, w'))
         \<longleftrightarrow> (\<exists>name \<in> set (placeholders (templates env agent_type)). \<not> dict_has ctx name))
      \<and> (\<forall>e w'. generate_response env agent_type ctx w = (Inl e, w') \<longrightarrow>
            (\<exists>name \<in> set (placeholders (templates env agent_type)).
                e = KeyError name \<and> \<not> dict_has ctx name)))
   \<and> (\<forall>prompt. format_template (py_str env) (templates env agent_type) ctx = Inr prompt \<longrightarrow>
        (\<forall>msg. llm env (length w) (system_message agent_type) prompt = Inl msg \<longrightarrow>
           fst (generate_response env agent_type ctx w) = Inr (''Error generating response: '' @ msg))
        \<and> (\<forall>content. llm env (length w) (system_message agent_type) prompt = Inr content \<longrightarrow>
           fst (generate_response env agent_type ctx w) = Inr (strip content)))"
proof (intro conjI impI allI)
  assume p: "plain_template (templates env agent_type)"
  show "(\<exists>e w'. generate_response env agent_type ctx w = (Inl e, w'))
         \<longleftrightarrow> (\<exists>name \<in> set (placeholders (templates env agent_type)). \<not> dict_has ctx name)"
    using format_template_raises_iff [OF p, of "py_str env" ctx]
    by (simp add: generate_response_Inl)
next
  fix e w'
  assume "plain_template (templates env agent_type)"
    and "generate_response env agent_type ctx w = (Inl e, w')"
  then show "\<exists>name \<in> set (placeholders (templates env agent_type)). e = KeyError name \<and> \<not> dict_has ctx name"
    using format_template_error [of "templates env agent_type" "py_str env" ctx e]
    by (simp add: generate_response_Inl)
next
  fix prompt msg
  assume "format_template (py_str env) (templates env agent_type) ctx = Inr prompt"
    and "llm env (length w) (system_message agent_type) prompt = Inl msg"
  then show "fst (generate_response env agent_type ctx w) = Inr (''Error generating response: '' @ msg)"
    by (simp add: generate_response_Inr)
next
  fix prompt content
  assume "format_template (py_str env) (templates env agent_type) ctx = Inr prompt"
    and "llm env (length w) (system_message agent_type) prompt = Inr content"
  then show "fst (generate_response env agent_type ctx w) = Inr (strip content)"
    by (simp add: generate_response_Inr)
qed

text \<open>
  The theorem of C7 on a context without \<^verbatim>\<open>issues\<close>, and on a full context with a failing
  and with an answering model call.
\<close>

theorem generate_response_raises_only_on_template_mismatch_witness:
  "plain_template (templates demo_env ''plaintiff_lawyer'')
   \<and> (\<exists>e w'. generate_response demo_env ''plaintiff_lawyer'' [(''facts'', JString ''F'')] [] = (Inl e, w'))
   \<and> format_template (py_str demo_env) (templates demo_env ''plaintiff_lawyer'')
        [(''facts'', JString ''F''), (''issues'', JString ''I'')] = Inr ''Facts: F Issues: I {verbatim}''
   \<and> fst (generate_response demo_env ''plaintiff_lawyer'' [(''facts'', JString ''F''), (''issues'', JString ''I'')]
        [(''judge'', [])])
      = Inr ''Error generating response: Connection error.''
   \<and> fst (generate_response demo_env ''plaintiff_lawyer'' [(''facts'', JString ''F''), (''issues'', JString ''I'')] [])
      = Inr ''Reply to: Facts: F Issues: I {verbatim}''"
proof -
  have m: "\<exists>name \<in> set (placeholders (templates demo_env ''plaintiff_lawyer'')).
      \<not> dict_has [(''facts'', JString ''F'')] name"
    by (simp add: demo_placeholders dict_has_def)
  have f: "format_template (py_str demo_env) (templates demo_env ''plaintiff_lawyer'')
        [(''facts'', JString ''F''), (''issues'', JString ''I'')] = Inr ''Facts: F Issues: I {verbatim}''"
    by (simp add: demo_env_def format_template_def get_field_def is_digit_def compound_chars_def py_format_def)
  have l1: "llm demo_env (length [(''judge'', [])]) (system_message ''plaintiff_lawyer'')
      ''Facts: F Issues: I {verbatim}'' = Inl ''Connection error.''"
    by (simp add: demo_env_def)
  have l0: "llm demo_env (length ([] :: invocation list)) (system_message ''plaintiff_lawyer'')
      ''Facts: F Issues: I {verbatim}'' = Inr '' Reply to: Facts: F Issues: I {verbatim} ''"
    by (simp add: demo_env_def)
  have s: "strip '' Reply to: Facts: F Issues: I {verbatim} '' = ''Reply to: Facts: F Issues: I {verbatim}''"
    by (simp add: strip_def py_space_def)
  have A: "\<exists>e w'. generate_response demo_env ''plaintiff_lawyer'' [(''facts'', JString ''F'')] [] = (Inl e, w')"
    using generate_response_raises_only_on_template_mismatch
        [of demo_env "''plaintiff_lawyer''" "[(''facts'', JString ''F'')]" "[]"]
      demo_plain [of "''plaintiff_lawyer''"] m
    by blast
  have "fst (generate_response demo_env ''plaintiff_lawyer'' [(''facts'', JString ''F''), (''issues'', JString ''I'')]
        [(''judge'', [])])
      = Inr (''Error generating response: '' @ ''Connection error.'')"
    using generate_response_raises_only_on_template_mismatch
        [of demo_env "''plaintiff_lawyer''" "[(''facts'', JString ''F''), (''issues'', JString ''I'')]" "[(''judge'', [])]"]
      f l1
    by blast
  then have B: "fst (generate_response demo_env ''plaintiff_lawyer'' [(''facts'', JString ''F''), (''issues'', JString ''I'')]
        [(''judge'', [])])
      = Inr ''Error generating response: Connection error.''"
    by simp
  have "fst (generate_response demo_env ''plaintiff_lawyer'' [(''facts'', JString ''F''), (''issues'', JString ''I'')] [])
      = Inr (strip '' Reply to: Facts: F Issues: I {verbatim} '')"
    using generate_response_raises_only_on_template_mismatch
        [of demo_env "''plaintiff_lawyer''" "[(''facts'', JString ''F''), (''issues'', JString ''I'')]" "[]"]
      f l0
    by blast
  then have C: "fst (generate_response demo_env ''plaintiff_lawyer'' [(''facts'', JString ''F''), (''issues'', JString ''I'')] [])
      = Inr ''Reply to: Facts: F Issues: I {verbatim}''"
    by (simp only: s)
  from demo_plain [of "''plaintiff_lawyer''"] A f B C show ?thesis by blast
qed

subsection \<open>The debate orchestrator\<close>

lemma debate_rounds_returns:
  assumes p: "format_template (py_str env) (templates env ''plaintiff_lawyer'')
                [(''facts'', facts), (''issues'', issues), (''holding'', holding)] = Inr pp"
    and d: "format_template (py_str env) (templates env ''defendant_lawyer'')
                [(''facts'', facts), (''issues'', issues), (''holding'', holding)] = Inr dp"
  shows "\<exists>added. debate_rounds env facts issues holding ns transcript w =
      (Inr (transcript @ added),
       w @ concat (map (\<lambda>n. [(''plaintiff_lawyer'', [(''facts'', facts), (''issues'', issues), (''holding'', holding)]),
                              (''defendant_lawyer'', [(''facts'', facts), (''issues'', issues), (''holding'', holding)])]) ns))
    \<and> map round added = concat (map (\<lambda>n. [n, n]) ns)
    \<and> map speaker added = concat (map (\<lambda>n. [''Plaintiff Lawyer'', ''Defendant Lawyer'']) ns)"
proof (induction ns arbitrary: transcript w)
  case Nil
  show ?case by simp
next
  case (Cons n ns)
  let ?ctx = "[(''facts'', facts), (''issues'', issues), (''holding'', holding)]"
  obtain parg where g1: "generate_response env ''plaintiff_lawyer'' ?ctx w
      = (Inr parg, w @ [(''plaintiff_lawyer'', ?ctx)])"
    using generate_response_Inr [OF p, of w] by blast
  obtain darg where g2: "generate_response env ''defendant_lawyer'' ?ctx (w @ [(''plaintiff_lawyer'', ?ctx)])
      = (Inr darg, (w @ [(''plaintiff_lawyer'', ?ctx)]) @ [(''defendant_lawyer'', ?ctx)])"
    using generate_response_Inr [OF d, of "w @ [(''plaintiff_lawyer'', ?ctx)]"] by blast
  let ?t2 = "(transcript @ [\<lparr>round = n, speaker = ''Plaintiff Lawyer'', argument = parg\<rparr>])
       @ [\<lparr>round = n, speaker = ''Defendant Lawyer'', argument = darg\<rparr>]"
  let ?w2 = "(w @ [(''plaintiff_lawyer'', ?ctx)]) @ [(''defendant_lawyer'', ?ctx)]"
  from Cons.IH [of ?t2 ?w2] obtain added where
    r: "debate_rounds env facts issues holding ns ?t2 ?w2 =
      (Inr (?t2 @ added),
       ?w2 @ concat (map (\<lambda>n. [(''plaintiff_lawyer'', ?ctx), (''defendant_lawyer'', ?ctx)]) ns))"
    and rr: "map round added = concat (map (\<lambda>n. [n, n]) ns)"
    and rs: "map speaker added = concat (map (\<lambda>n. [''Plaintiff Lawyer'', ''Defendant Lawyer'']) ns)"
    by blast
  let ?added = "[\<lparr>round = n, speaker = ''Plaintiff Lawyer'', argument = parg\<rparr>,
                 \<lparr>round = n, speaker = ''Defendant Lawyer'', argument = darg\<rparr>] @ added"
  have "debate_rounds env facts issues holding (n # ns) transcript w =
      (Inr (transcript @ ?added),
       w @ concat (map (\<lambda>n. [(''plaintiff_lawyer'', ?ctx), (''defendant_lawyer'', ?ctx)]) (n # ns)))"
    using g1 g2 r by (simp add: Let_def)
  moreover have "map round ?added = concat (map (\<lambda>n. [n, n]) (n # ns))"
    using rr by simp
  moreover have "map speaker ?added = concat (map (\<lambda>n. [''Plaintiff Lawyer'', ''Defendant Lawyer'']) (n # ns))"
    using rs by simp
  ultimately show ?case by blast
qed

lemma nth_concat_pairs:
  "k < length ns \<Longrightarrow>
   concat (map (\<lambda>n. [f n, g n]) ns) ! (2 * k) = f (ns ! k)
   \<and> concat (map (\<lambda>n. [f n, g n]) ns) ! (2 * k + 1) = g (ns ! k)"
proof (induction ns arbitrary: k)
  case Nil
  then show ?case by simp
next
  case (Cons n ns)
  show ?case
  proof (cases k)
    case 0
    then show ?thesis by simp
  next
    case (Suc j)
    with Cons.prems have "j < length ns" by simp
    from Cons.IH [OF this] show ?thesis using Suc by simp
  qed
qed

lemma length_concat_pairs: "length (concat (map (\<lambda>n. [f n, g n]) ns)) = 2 * length ns"
  by (induction ns) simp_all

lemma run_simulation_returns:
  assumes rp: "renders env ''plaintiff_lawyer'' [''facts'', ''issues'', ''holding'']"
    and rd: "renders env ''defendant_lawyer'' [''facts'', ''issues'', ''holding'']"
    and rj: "renders env ''judge''
               [''facts'', ''issues'', ''holding'', ''plaintiff_arguments'', ''defendant_arguments'']"
  shows "\<exists>res reply.
    run_simulation env case_data R w =
      (Inr res,
       w @ concat (map (\<lambda>n.
              [(''plaintiff_lawyer'',
                  [(''facts'', dict_get case_data ''facts'' (JString [])),
                   (''issues'', dict_get case_data ''issues'' (JString [])),
                   (''holding'', dict_get case_data ''holding'' (JString []))]),
               (''defendant_lawyer'',
                  [(''facts'', dict_get case_data ''facts'' (JString [])),
                   (''issues'', dict_get case_data ''issues'' (JString [])),
                   (''holding'', dict_get case_data ''holding'' (JString []))])]) [1 .. R])
         @ [(''judge'',
              [(''facts'', dict_get case_data ''facts'' (JString [])),
               (''issues'', dict_get case_data ''issues'' (JString [])),
               (''holding'', dict_get case_data ''holding'' (JString [])),
               (''plaintiff_arguments'', JString (arguments_of ''Plaintiff Lawyer'' (debate_transcript res))),
               (''defendant_arguments'', JString (arguments_of ''Defendant Lawyer'' (debate_transcript res)))])])
    \<and> map round (debate_transcript res) = concat (map (\<lambda>n. [n, n]) [1 .. R])
    \<and> map speaker (debate_transcript res)
        = concat (map (\<lambda>n. [''Plaintiff Lawyer'', ''Defendant Lawyer'']) [1 .. R])
    \<and> verdict res = extract_verdict reply
    \<and> rounds_completed res = R"
proof -
  let ?f = "dict_get case_data ''facts'' (JString [])"
  let ?i = "dict_get case_data ''issues'' (JString [])"
  let ?h = "dict_get case_data ''holding'' (JString [])"
  let ?ctx = "[(''facts'', ?f), (''issues'', ?i), (''holding'', ?h)]"
  let ?log = "concat (map (\<lambda>n. [(''plaintiff_lawyer'', ?ctx), (''defendant_lawyer'', ?ctx)]) [1 .. R])"
  obtain pp where p: "format_template (py_str env) (templates env ''plaintiff_lawyer'') ?ctx = Inr pp"
    using renders_format [of env "''plaintiff_lawyer''" ?ctx] rp by auto
  obtain dp where d: "format_template (py_str env) (templates env ''defendant_lawyer'') ?ctx = Inr dp"
    using renders_format [of env "''defendant_lawyer''" ?ctx] rd by auto
  from debate_rounds_returns [OF p d, of "[1 .. R]" "[]" w] obtain tr where
    dr: "debate_rounds env ?f ?i ?h [1 .. R] [] w = (Inr tr, w @ ?log)"
    and r: "map round tr = concat (map (\<lambda>n. [n, n]) [1 .. R])"
    and s: "map speaker tr = concat (map (\<lambda>n. [''Plaintiff Lawyer'', ''Defendant Lawyer'']) [1 .. R])"
    by auto
  let ?jctx = "[(''facts'', ?f), (''issues'', ?i), (''holding'', ?h),
               (''plaintiff_arguments'', JString (arguments_of ''Plaintiff Lawyer'' tr)),
               (''defendant_arguments'', JString (arguments_of ''Defendant Lawyer'' tr))]"
  obtain jp where j: "format_template (py_str env) (templates env ''judge'') ?jctx = Inr jp"
    using renders_format [of env "''judge''" ?jctx] rj by auto
  obtain reply where g: "generate_response env ''judge'' ?jctx (w @ ?log)
      = (Inr reply, (w @ ?log) @ [(''judge'', ?jctx)])"
    using generate_response_Inr [OF j, of "w @ ?log"] by blast
  let ?res = "\<lparr>debate_transcript = tr, verdict = extract_verdict reply, rounds_completed = R\<rparr>"
  have "run_simulation env case_data R w = (Inr ?res, w @ ?log @ [(''judge'', ?jctx)])"
    using dr g by (simp add: run_simulation_def render_verdict_def Let_def)
  with r s show ?thesis
    by (intro exI [of _ ?res] exI [of _ reply]) simp
qed

lemma run_simulation_reply:
  assumes rp: "renders env ''plaintiff_lawyer'' [''facts'', ''issues'', ''holding'']"
    and rd: "renders env ''defendant_lawyer'' [''facts'', ''issues'', ''holding'']"
    and rj: "renders env ''judge''
               [''facts'', ''issues'', ''holding'', ''plaintiff_arguments'', ''defendant_arguments'']"
  shows "\<exists>res prompt.
    run_simulation env case_data R w =
      (Inr res,
       w @ concat (map (\<lambda>n.
              [(''plaintiff_lawyer'',
                  [(''facts'', dict_get case_data ''facts'' (JString [])),
                   (''issues'', dict_get case_data ''issues'' (JString [])),
                   (''holding'', dict_get case_data ''holding'' (JString []))]),
               (''defendant_lawyer'',
                  [(''facts'', dict_get case_data ''facts'' (JString [])),
                   (''issues'', dict_get case_data ''issues'' (JString [])),
                   (''holding'', dict_get case_data ''holding'' (JString []))])]) [1 .. R])
         @ [(''judge'',
              [(''facts'', dict_get case_data ''facts'' (JString [])),
               (''issues'', dict_get case_data ''issues'' (JString [])),
               (''holding'', dict_get case_data ''holding'' (JString [])),
               (''plaintiff_arguments'', JString (arguments_of ''Plaintiff Lawyer'' (debate_transcript res))),
               (''defendant_arguments'', JString (arguments_of ''Defendant Lawyer'' (debate_transcript res)))])])
    \<and> map round (debate_transcript res) = concat (map (\<lambda>n. [n, n]) [1 .. R])
    \<and> map speaker (debate_transcript res)
        = concat (map (\<lambda>n. [''Plaintiff Lawyer'', ''Defendant Lawyer'']) [1 .. R])
    \<and> format_template (py_str env) (templates env ''judge'')
          [(''facts'', dict_get case_data ''facts'' (JString [])),
           (''issues'', dict_get case_data ''issues'' (JString [])),
           (''holding'', dict_get case_data ''holding'' (JString [])),
           (''plaintiff_arguments'', JString (arguments_of ''Plaintiff Lawyer'' (debate_transcript res))),
           (''defendant_arguments'', JString (arguments_of ''Defendant Lawyer'' (debate_transcript res)))]
        = Inr prompt
    \<and> verdict res =
        extract_verdict
          (case llm env (length w + 2 * nat R) (system_message ''judge'') prompt of
             Inr content \<Rightarrow> strip content
           | Inl msg \<Rightarrow> ''Error generating response: '' @ msg)
    \<and> rounds_completed res = R"
proof -
  let ?f = "dict_get case_data ''facts'' (JString [])"
  let ?i = "dict_get case_data ''issues'' (JString [])"
  let ?h = "dict_get case_data ''holding'' (JString [])"
  let ?ctx = "[(''facts'', ?f), (''issues'', ?i), (''holding'', ?h)]"
  let ?log = "concat (map (\<lambda>n. [(''plaintiff_lawyer'', ?ctx), (''defendant_lawyer'', ?ctx)]) [1 .. R])"
  obtain pp where p: "format_template (py_str env) (templates env ''plaintiff_lawyer'') ?ctx = Inr pp"
    using renders_format [of env "''plaintiff_lawyer''" ?ctx] rp by auto
  obtain dp where d: "format_template (py_str env) (templates env ''defendant_lawyer'') ?ctx = Inr dp"
    using renders_format [of env "''defendant_lawyer''" ?ctx] rd by auto
  from debate_rounds_returns [OF p d, of "[1 .. R]" "[]" w] obtain tr where
    dr: "debate_rounds env ?f ?i ?h [1 .. R] [] w = (Inr tr, w @ ?log)"
    and r: "map round tr = concat (map (\<lambda>n. [n, n]) [1 .. R])"
    and s: "map speaker tr = concat (map (\<lambda>n. [''Plaintiff Lawyer'', ''Defendant Lawyer'']) [1 .. R])"
    by auto
  let ?jctx = "[(''facts'', ?f), (''issues'', ?i), (''holding'', ?h),
               (''plaintiff_arguments'', JString (arguments_of ''Plaintiff Lawyer'' tr)),
               (''defendant_arguments'', JString (arguments_of ''Defendant Lawyer'' tr))]"
  obtain jp where j: "format_template (py_str env) (templates env ''judge'') ?jctx = Inr jp"
    using renders_format [of env "''judge''" ?jctx] rj by auto
  define reply where "reply =
      (case llm env (length w + 2 * nat R) (system_message ''judge'') jp of
         Inr content \<Rightarrow> strip content
       | Inl msg \<Rightarrow> ''Error generating response: '' @ msg)"
  have "length (w @ ?log) = length w + 2 * nat R"
    by (simp add: length_concat_pairs)
  then have g: "generate_response env ''judge'' ?jctx (w @ ?log)
      = (Inr reply, (w @ ?log) @ [(''judge'', ?jctx)])"
    using generate_response_Inr [OF j, of "w @ ?log"] by (simp add: reply_def)
  let ?res = "\<lparr>debate_transcript = tr, verdict = extract_verdict reply, rounds_completed = R\<rparr>"
  have "run_simulation env case_data R w = (Inr ?res, w @ ?log @ [(''judge'', ?jctx)])"
    using dr g by (simp add: run_simulation_def render_verdict_def Let_def)
  with r s j show ?thesis
    by (intro exI [of _ ?res] exI [of _ jp]) (simp add: reply_def)
qed

lemma no_judge_in_rounds:
  "filter (\<lambda>i. fst i = ''judge'')
     (concat (map (\<lambda>n. [(''plaintiff_lawyer'', c1), (''defendant_lawyer'', c2)]) ns)) = []"
  by (induction ns) simp_all

lemma run_simulation_zero:
  assumes "renders env ''judge''
               [''facts'', ''issues'', ''holding'', ''plaintiff_arguments'', ''defendant_arguments'']"
  shows "\<exists>reply. run_simulation env case_data 0 w =
      (Inr \<lparr>debate_transcript = [], verdict = extract_verdict reply, rounds_completed = 0\<rparr>,
       w @ [(''judge'',
              [(''facts'', dict_get case_data ''facts'' (JString [])),
               (''issues'', dict_get case_data ''issues'' (JString [])),
               (''holding'', dict_get case_data ''holding'' (JString [])),
               (''plaintiff_arguments'', JString []),
               (''defendant_arguments'', JString [])])])"
proof -
  let ?jctx = "[(''facts'', dict_get case_data ''facts'' (JString [])),
               (''issues'', dict_get case_data ''issues'' (JString [])),
               (''holding'', dict_get case_data ''holding'' (JString [])),
               (''plaintiff_arguments'', JString []),
               (''defendant_arguments'', JString [])]"
  obtain jp where j: "format_template (py_str env) (templates env ''judge'') ?jctx = Inr jp"
    using renders_format [of env "''judge''" ?jctx] assms by auto
  obtain reply where g: "generate_response env ''judge'' ?jctx w = (Inr reply, w @ [(''judge'', ?jctx)])"
    using generate_response_Inr [OF j, of w] by blast
  have "run_simulation env case_data 0 w =
      (Inr \<lparr>debate_transcript = [], verdict = extract_verdict reply, rounds_completed = 0\<rparr>,
       w @ [(''judge'', ?jctx)])"
    using g by (simp add: run_simulation_def render_verdict_def Let_def arguments_of_def)
  then show ?thesis by blast
qed

lemma demo_run:
  "run_simulation demo_env demo_case 2 [] =
    (Inr \<lparr>debate_transcript =
         [\<lparr>round = 1, speaker = ''Plaintiff Lawyer'',
             argument = ''Reply to: Facts: F Issues: I {verbatim}''\<rparr>,
          \<lparr>round = 1, speaker = ''Defendant Lawyer'',
             argument = ''Error generating response: Connection error.''\<rparr>,
          \<lparr>round = 2, speaker = ''Plaintiff Lawyer'',
             argument = ''Reply to: Facts: F Issues: I {verbatim}''\<rparr>,
          \<lparr>round = 2, speaker = ''Defendant Lawyer'',
             argument = ''Reply to: Facts: F Issues: I {verbatim}''\<rparr>],
         verdict =
           JObject
            [(''verdict'', JString ''FAVOR_DEFENDANT''),
             (''confidence'', JInt 75),
             (''reasoning'', JArray [JString ''Reply to: Facts: F Issues: I {verbatim}'']),
             (''supporting_evidence'', JArray [JString ''Evidence from case facts''])],
         rounds_completed = 2\<rparr>,
     [(''plaintiff_lawyer'', [(''facts'', JString ''F''), (''issues'', JString ''I''), (''holding'', JString [])]),
      (''defendant_lawyer'', [(''facts'', JString ''F''), (''issues'', JString ''I''), (''holding'', JString [])]),
      (''plaintiff_lawyer'', [(''facts'', JString ''F''), (''issues'', JString ''I''), (''holding'', JString [])]),
      (''defendant_lawyer'', [(''facts'', JString ''F''), (''issues'', JString ''I''), (''holding'', JString [])]),
      (''judge'',
        [(''facts'', JString ''F''), (''issues'', JString ''I''), (''holding'', JString []),
         (''plaintiff_arguments'',
            JString (''Reply to: Facts: F Issues: I {verbatim}'' @ [CHR 0x0A, CHR 0x0A]
                     @ ''Reply to: Facts: F Issues: I {verbatim}'')),
         (''defendant_arguments'',
            JString (''Error generating response: Connection error.'' @ [CHR 0x0A, CHR 0x0A]
                     @ ''Reply to: Facts: F Issues: I {verbatim}''))])])"
  by code_simp

lemma demo_run_zero:
  "run_simulation demo_env demo_case 0 [] =
    (Inr \<lparr>debate_transcript = [],
         verdict =
           JObject
            [(''verdict'', JString ''FAVOR_DEFENDANT''),
             (''confidence'', JInt 75),
             (''reasoning'', JArray [JString ''Reply to: Facts: F Issues: I {verbatim}'']),
             (''supporting_evidence'', JArray [JString ''Evidence from case facts''])],
         rounds_completed = 0\<rparr>,
     [(''judge'',
        [(''facts'', JString ''F''), (''issues'', JString ''I''), (''holding'', JString []),
         (''plaintiff_arguments'', JString []), (''defendant_arguments'', JString [])])])"
  by code_simp

text \<open>
  Claim C1. For every round count \<open>R \<ge> 1\<close> and every behaviour of the model (failures
  included), with templates that render on the contexts they are given,
  \<^verbatim>\<open>run_simulation\<close> returns a transcript of exactly \<open>2 * R\<close> entries, the entries of round
  \<open>n\<close> at positions \<open>2 * n - 2\<close> (the plaintiff lawyer) and \<open>2 * n - 1\<close> (the defendant lawyer)
  and carrying round number \<open>n\<close>, with \<open>rounds_completed = R\<close> and exactly one verdict: the
  judge is invoked once, after the \<open>2 * R\<close> turns, and the verdict of the result is what
  verdict extraction makes of the reply of that invocation (the stripped response of the
  model to the judge prompt, or the error text of a failed call): the value parsed from the
  reply, holding \<^verbatim>\<open>verdict\<close> and \<^verbatim>\<open>confidence\<close>, or else the fallback verdict of the reply.
\<close>

theorem run_simulation_transcript_shape:
  assumes "renders env ''plaintiff_lawyer'' [''facts'', ''issues'', ''holding'']"
    and "renders env ''defendant_lawyer'' [''facts'', ''issues'', ''holding'']"
    and "renders env ''judge''
               [''facts'', ''issues'', ''holding'', ''plaintiff_arguments'', ''defendant_arguments'']"
    and "1 \<le> R"
  shows "\<exists>res w' prompt reply.
    run_simulation env case_data R w = (Inr res, w')
    \<and> length (debate_transcript res) = 2 * nat R
    \<and> (\<forall>n. 1 \<le> n \<and> n \<le> R \<longrightarrow>
          round (debate_transcript res ! nat (2 * n - 2)) = n
          \<and> speaker (debate_transcript res ! nat (2 * n - 2)) = ''Plaintiff Lawyer''
          \<and> round (debate_transcript res ! nat (2 * n - 1)) = n
          \<and> speaker (debate_transcript res ! nat (2 * n - 1)) = ''Defendant Lawyer'')
    \<and> rounds_completed res = R
    \<and> length (filter (\<lambda>i. fst i = ''judge'') (drop (length w) w')) = 1
    \<and> format_template (py_str env) (templates env ''judge'')
          [(''facts'', dict_get case_data ''facts'' (JString [])),
           (''issues'', dict_get case_data ''issues'' (JString [])),
           (''holding'', dict_get case_data ''holding'' (JString [])),
           (''plaintiff_arguments'', JString (arguments_of ''Plaintiff Lawyer'' (debate_transcript res))),
           (''defendant_arguments'', JString (arguments_of ''Defendant Lawyer'' (debate_transcript res)))]
        = Inr prompt
    \<and> reply =
        (case llm env (length w + 2 * nat R) (system_message ''judge'') prompt of
           Inr content \<Rightarrow> strip content
         | Inl msg \<Rightarrow> ''Error generating response: '' @ msg)
    \<and> verdict res = extract_verdict reply
    \<and> (verdict res = verdict_fallback reply
         \<or> (parse_response reply = Inr (verdict res)
             \<and> py_in ''verdict'' (verdict res) = Inr True
             \<and> py_in ''confidence'' (verdict res) = Inr True))"
proof -
  from run_simulation_reply [OF assms(1-3), of case_data R w] obtain res prompt w' where
    run: "run_simulation env case_data R w = (Inr res, w')"
    and w': "w' = w @ concat (map (\<lambda>n.
              [(''plaintiff_lawyer'',
                  [(''facts'', dict_get case_data ''facts'' (JString [])),
                   (''issues'', dict_get case_data ''issues'' (JString [])),
                   (''holding'', dict_get case_data ''holding'' (JString []))]),
               (''defendant_lawyer'',
                  [(''facts'', dict_get case_data ''facts'' (JString [])),
                   (''issues'', dict_get case_data ''issues'' (JString [])),
                   (''holding'', dict_get case_data ''holding'' (JString []))])]) [1 .. R])
         @ [(''judge'',
              [(''facts'', dict_get case_data ''facts'' (JString [])),
               (''issues'', dict_get case_data ''issues'' (JString [])),
               (''holding'', dict_get case_data ''holding'' (JString [])),
               (''plaintiff_arguments'', JString (arguments_of ''Plaintiff Lawyer'' (debate_transcript res))),
               (''defendant_arguments'', JString (arguments_of ''Defendant Lawyer'' (debate_transcript res)))])]"
    and r: "map round (debate_transcript res) = concat (map (\<lambda>n. [n, n]) [1 .. R])"
    and s: "map speaker (debate_transcript res)
        = concat (map (\<lambda>n. [''Plaintiff Lawyer'', ''Defendant Lawyer'']) [1 .. R])"
    and c: "rounds_completed res = R"
    and fmt: "format_template (py_str env) (templates env ''judge'')
          [(''facts'', dict_get case_data ''facts'' (JString [])),
           (''issues'', dict_get case_data ''issues'' (JString [])),
           (''holding'', dict_get case_data ''holding'' (JString [])),
           (''plaintiff_arguments'', JString (arguments_of ''Plaintiff Lawyer'' (debate_transcript res))),
           (''defendant_arguments'', JString (arguments_of ''Defendant Lawyer'' (debate_transcript res)))]
        = Inr prompt"
    and v: "verdict res =
        extract_verdict
          (case llm env (length w + 2 * nat R) (system_message ''judge'') prompt of
             Inr content \<Rightarrow> strip content
           | Inl msg \<Rightarrow> ''Error generating response: '' @ msg)"
    by blast
  define reply where "reply =
        (case llm env (length w + 2 * nat R) (system_message ''judge'') prompt of
           Inr content \<Rightarrow> strip content
         | Inl msg \<Rightarrow> ''Error generating response: '' @ msg)"
  from v have v': "verdict res = extract_verdict reply" by (simp add: reply_def)
  have vc: "verdict res = verdict_fallback reply
         \<or> (parse_response reply = Inr (verdict res)
             \<and> py_in ''verdict'' (verdict res) = Inr True
             \<and> py_in ''confidence'' (verdict res) = Inr True)"
    using extract_verdict_cases [of reply] by (simp add: v')
  have len: "length (debate_transcript res) = 2 * nat R"
    using arg_cong [OF r, of length] by (simp add: length_concat_pairs)
  have pos: "round (debate_transcript res ! nat (2 * n - 2)) = n
          \<and> speaker (debate_transcript res ! nat (2 * n - 2)) = ''Plaintiff Lawyer''
          \<and> round (debate_transcript res ! nat (2 * n - 1)) = n
          \<and> speaker (debate_transcript res ! nat (2 * n - 1)) = ''Defendant Lawyer''"
    if n: "1 \<le> n \<and> n \<le> R" for n
  proof -
    define k where "k = nat (n - 1)"
    have k: "k < length [1 .. R]" using n by (simp add: k_def)
    have i0: "nat (2 * n - 2) = 2 * k" and i1: "nat (2 * n - 1) = 2 * k + 1"
      using n unfolding k_def by arith+
    have nk: "[1 .. R] ! k = n" using n by (simp add: k_def nth_upto)
    have b0: "2 * k < length (debate_transcript res)" and b1: "2 * k + 1 < length (debate_transcript res)"
      using k len by simp_all
    have "round (debate_transcript res ! (2 * k)) = map round (debate_transcript res) ! (2 * k)"
      using b0 by simp
    also have "\<dots> = n"
      using nth_concat_pairs [OF k, of "\<lambda>n. n" "\<lambda>n. n"] nk by (simp add: r)
    finally have a: "round (debate_transcript res ! (2 * k)) = n" .
    have "round (debate_transcript res ! (2 * k + 1)) = map round (debate_transcript res) ! (2 * k + 1)"
      using b1 by simp
    also have "\<dots> = n"
      using nth_concat_pairs [OF k, of "\<lambda>n. n" "\<lambda>n. n"] nk by (simp add: r)
    finally have b: "round (debate_transcript res ! (2 * k + 1)) = n" .
    have "speaker (debate_transcript res ! (2 * k)) = map speaker (debate_transcript res) ! (2 * k)"
      using b0 by simp
    also have "\<dots> = ''Plaintiff Lawyer''"
      using nth_concat_pairs [OF k, of "\<lambda>n. ''Plaintiff Lawyer''" "\<lambda>n. ''Defendant Lawyer''"]
      by (simp add: s)
    finally have c: "speaker (debate_transcript res ! (2 * k)) = ''Plaintiff Lawyer''" .
    have "speaker (debate_transcript res ! (2 * k + 1)) = map speaker (debate_transcript res) ! (2 * k + 1)"
      using b1 by simp
    also have "\<dots> = ''Defendant Lawyer''"
      using nth_concat_pairs [OF k, of "\<lambda>n. ''Plaintiff Lawyer''" "\<lambda>n. ''Defendant Lawyer''"]
      by (simp add: s)
    finally have d: "speaker (debate_transcript res ! (2 * k + 1)) = ''Defendant Lawyer''" .
    from a b c d show ?thesis by (simp only: i0 i1)
  qed
  have one: "length (filter (\<lambda>i. fst i = ''judge'') (drop (length w) w')) = 1"
    by (simp add: w' no_judge_in_rounds)
  show ?thesis
  proof (rule exI [of _ res], rule exI [of _ w'], rule exI [of _ prompt], rule exI [of _ reply],
      intro conjI allI impI)
    fix n assume "1 \<le> n \<and> n \<le> R"
    from pos [OF this]
    show "round (debate_transcript res ! nat (2 * n - 2)) = n"
      and "speaker (debate_transcript res ! nat (2 * n - 2)) = ''Plaintiff Lawyer''"
      and "round (debate_transcript res ! nat (2 * n - 1)) = n"
      and "speaker (debate_transcript res ! nat (2 * n - 1)) = ''Defendant Lawyer''"
      by simp_all
  qed (rule run len c one fmt reply_def v' vc)+
qed

text \<open>
  The theorem of C1 at two rounds, the defendant's first turn failing: its error text is
  the second entry of the transcript, and the verdict is the fallback verdict of the judge's
  reply, which holds no object.
\<close>

theorem run_simulation_transcript_shape_witness:
  "renders demo_env ''plaintiff_lawyer'' [''facts'', ''issues'', ''holding'']
   \<and> renders demo_env ''defendant_lawyer'' [''facts'', ''issues'', ''holding'']
   \<and> renders demo_env ''judge''
         [''facts'', ''issues'', ''holding'', ''plaintiff_arguments'', ''defendant_arguments'']
   \<and> (1 :: int) \<le> 2
   \<and> (\<exists>res w'.
        run_simulation demo_env demo_case 2 [] = (Inr res, w')
        \<and> length (debate_transcript res) = 4
        \<and> map (\<lambda>t. (round t, speaker t)) (debate_transcript res)
            = [(1, ''Plaintiff Lawyer''), (1, ''Defendant Lawyer''),
               (2, ''Plaintiff Lawyer''), (2, ''Defendant Lawyer'')]
        \<and> argument (debate_transcript res ! 1) = ''Error generating response: Connection error.''
        \<and> rounds_completed res = 2
        \<and> length (filter (\<lambda>i. fst i = ''judge'') (drop (length ([] :: invocation list)) w')) = 1
        \<and> verdict res = extract_verdict ''Reply to: Facts: F Issues: I {verbatim}''
        \<and> verdict res =
            JObject
             [(''verdict'', JString ''FAVOR_DEFENDANT''),
              (''confidence'', JInt 75),
              (''reasoning'', JArray [JString ''Reply to: Facts: F Issues: I {verbatim}'']),
              (''supporting_evidence'', JArray [JString ''Evidence from case facts''])])"
proof -
  have le: "(1 :: int) \<le> 2" by simp
  from run_simulation_transcript_shape [OF demo_renders le, of demo_case "[]"]
  obtain res w' prompt reply where
    run: "run_simulation demo_env demo_case 2 [] = (Inr res, w')"
    and len: "length (debate_transcript res) = 2 * nat 2"
    and rc: "rounds_completed res = 2"
    and one: "length (filter (\<lambda>i. fst i = ''judge'') (drop (length ([] :: invocation list)) w')) = 1"
    and fmt: "format_template (py_str demo_env) (templates demo_env ''judge'')
          [(''facts'', dict_get demo_case ''facts'' (JString [])),
           (''issues'', dict_get demo_case ''issues'' (JString [])),
           (''holding'', dict_get demo_case ''holding'' (JString [])),
           (''plaintiff_arguments'', JString (arguments_of ''Plaintiff Lawyer'' (debate_transcript res))),
           (''defendant_arguments'', JString (arguments_of ''Defendant Lawyer'' (debate_transcript res)))]
        = Inr prompt"
    and reply: "reply =
        (case llm demo_env (length ([] :: invocation list) + 2 * nat 2) (system_message ''judge'') prompt of
           Inr content \<Rightarrow> strip content
         | Inl msg \<Rightarrow> ''Error generating response: '' @ msg)"
    and v: "verdict res = extract_verdict reply"
    by blast
  have tr: "map (\<lambda>t. (round t, speaker t)) (debate_transcript res)
            = [(1, ''Plaintiff Lawyer''), (1, ''Defendant Lawyer''),
               (2, ''Plaintiff Lawyer''), (2, ''Defendant Lawyer'')]"
    and arg: "argument (debate_transcript res ! 1) = ''Error generating response: Connection error.''"
    and vo: "verdict res =
            JObject
             [(''verdict'', JString ''FAVOR_DEFENDANT''),
              (''confidence'', JInt 75),
              (''reasoning'', JArray [JString ''Reply to: Facts: F Issues: I {verbatim}'']),
              (''supporting_evidence'', JArray [JString ''Evidence from case facts''])]"
    using run by (auto simp: demo_run)
  have "prompt = ''Facts: F Issues: I {verbatim}''"
    using fmt by (simp add: demo_env_def demo_case_def dict_get_def format_eval)
  then have "reply = ''Reply to: Facts: F Issues: I {verbatim}''"
    using reply by (simp add: demo_env_def strip_def py_space_def)
  with v have vr: "verdict res = extract_verdict ''Reply to: Facts: F Issues: I {verbatim}''"
    by simp
  from len have len4: "length (debate_transcript res) = 4" by simp
  show ?thesis
    by (intro conjI exI [of _ res] exI [of _ w'])
       (rule demo_renders le run len4 tr arg rc one vr vo)+
qed

text \<open>
  Claim C9. In every round the plaintiff turn and the defendant turn receive the same
  context, made of exactly the fields \<^verbatim>\<open>facts\<close>, \<^verbatim>\<open>issues\<close> and \<^verbatim>\<open>holding\<close> of the case data (the
  empty text for a field the case lacks), and no argument of any turn; the judge receives
  these three fields and \<^verbatim>\<open>plaintiff_arguments\<close> and \<^verbatim>\<open>defendant_arguments\<close>, each the join,
  by two line feeds, of the arguments of that speaker's transcript entries in transcript
  order. The invocations of a run are the list \<open>drop (length w) w'\<close>.
\<close>

theorem agent_contexts:
  assumes "renders env ''plaintiff_lawyer'' [''facts'', ''issues'', ''holding'']"
    and "renders env ''defendant_lawyer'' [''facts'', ''issues'', ''holding'']"
    and "renders env ''judge''
               [''facts'', ''issues'', ''holding'', ''plaintiff_arguments'', ''defendant_arguments'']"
  shows "\<exists>res w'.
    run_simulation env case_data R w = (Inr res, w')
    \<and> drop (length w) w' =
        concat (map (\<lambda>n.
              [(''plaintiff_lawyer'',
                  [(''facts'', dict_get case_data ''facts'' (JString [])),
                   (''issues'', dict_get case_data ''issues'' (JString [])),
                   (''holding'', dict_get case_data ''holding'' (JString []))]),
               (''defendant_lawyer'',
                  [(''facts'', dict_get case_data ''facts'' (JString [])),
                   (''issues'', dict_get case_data ''issues'' (JString [])),
                   (''holding'', dict_get case_data ''holding'' (JString []))])]) [1 .. R])
         @ [(''judge'',
              [(''facts'', dict_get case_data ''facts'' (JString [])),
               (''issues'', dict_get case_data ''issues'' (JString [])),
               (''holding'', dict_get case_data ''holding'' (JString [])),
               (''plaintiff_arguments'',
                  JString (join [CHR 0x0A, CHR 0x0A]
                    (map argument (filter (\<lambda>t. speaker t = ''Plaintiff Lawyer'') (debate_transcript res))))),
               (''defendant_arguments'',
                  JString (join [CHR 0x0A, CHR 0x0A]
                    (map argument (filter (\<lambda>t. speaker t = ''Defendant Lawyer'') (debate_transcript res)))))])]"
proof -
  from run_simulation_returns [OF assms, of case_data R w] obtain res where
    "run_simulation env case_data R w =
      (Inr res,
       w @ concat (map (\<lambda>n.
              [(''plaintiff_lawyer'',
                  [(''facts'', dict_get case_data ''facts'' (JString [])),
                   (''issues'', dict_get case_data ''issues'' (JString [])),
                   (''holding'', dict_get case_data ''holding'' (JString []))]),
               (''defendant_lawyer'',
                  [(''facts'', dict_get case_data ''facts'' (JString [])),
                   (''issues'', dict_get case_data ''issues'' (JString [])),
                   (''holding'', dict_get case_data ''holding'' (JString []))])]) [1 .. R])
         @ [(''judge'',
              [(''facts'', dict_get case_data ''facts'' (JString [])),
               (''issues'', dict_get case_data ''issues'' (JString [])),
               (''holding'', dict_get case_data ''holding'' (JString [])),
               (''plaintiff_arguments'', JString (arguments_of ''Plaintiff Lawyer'' (debate_transcript res))),
               (''defendant_arguments'', JString (arguments_of ''Defendant Lawyer'' (debate_transcript res)))])])"
    by blast
  then show ?thesis by (simp add: arguments_of_def)
qed

text \<open>The theorem of C9 at two rounds: the five invocations of the run.\<close>

theorem agent_contexts_witness:
  "renders demo_env ''plaintiff_lawyer'' [''facts'', ''issues'', ''holding'']
   \<and> renders demo_env ''defendant_lawyer'' [''facts'', ''issues'', ''holding'']
   \<and> renders demo_env ''judge''
         [''facts'', ''issues'', ''holding'', ''plaintiff_arguments'', ''defendant_arguments'']
   \<and> (\<exists>res w'.
        run_simulation demo_env demo_case 2 [] = (Inr res, w')
        \<and> drop (length ([] :: invocation list)) w' =
     [(''plaintiff_lawyer'', [(''facts'', JString ''F''), (''issues'', JString ''I''), (''holding'', JString [])]),
      (''defendant_lawyer'', [(''facts'', JString ''F''), (''issues'', JString ''I''), (''holding'', JString [])]),
      (''plaintiff_lawyer'', [(''facts'', JString ''F''), (''issues'', JString ''I''), (''holding'', JString [])]),
      (''defendant_lawyer'', [(''facts'', JString ''F''), (''issues'', JString ''I''), (''holding'', JString [])]),
      (''judge'',
        [(''facts'', JString ''F''), (''issues'', JString ''I''), (''holding'', JString []),
         (''plaintiff_arguments'',
            JString (''Reply to: Facts: F Issues: I {verbatim}'' @ [CHR 0x0A, CHR 0x0A]
                     @ ''Reply to: Facts: F Issues: I {verbatim}'')),
         (''defendant_arguments'',
            JString (''Error generating response: Connection error.'' @ [CHR 0x0A, CHR 0x0A]
                     @ ''Reply to: Facts: F Issues: I {verbatim}''))])])"
proof -
  from agent_contexts [OF demo_renders, of demo_case 2 "[]"]
  obtain res w' where run: "run_simulation demo_env demo_case 2 [] = (Inr res, w')"
    by blast
  have log: "drop (length ([] :: invocation list)) w' =
     [(''plaintiff_lawyer'', [(''facts'', JString ''F''), (''issues'', JString ''I''), (''holding'', JString [])]),
      (''defendant_lawyer'', [(''facts'', JString ''F''), (''issues'', JString ''I''), (''holding'', JString [])]),
      (''plaintiff_lawyer'', [(''facts'', JString ''F''), (''issues'', JString ''I''), (''holding'', JString [])]),
      (''defendant_lawyer'', [(''facts'', JString ''F''), (''issues'', JString ''I''), (''holding'', JString [])]),
      (''judge'',
        [(''facts'', JString ''F''), (''issues'', JString ''I''), (''holding'', JString []),
         (''plaintiff_arguments'',
            JString (''Reply to: Facts: F Issues: I {verbatim}'' @ [CHR 0x0A, CHR 0x0A]
                     @ ''Reply to: Facts: F Issues: I {verbatim}'')),
         (''defendant_arguments'',
            JString (''Error generating response: Connection error.'' @ [CHR 0x0A, CHR 0x0A]
                     @ ''Reply to: Facts: F Issues: I {verbatim}''))])]"
    using run by (auto simp: demo_run)
  show ?thesis
    by (intro conjI exI [of _ res] exI [of _ w']) (rule demo_renders run log)+
qed

lemma api_run_simulation_zero:
  assumes run: "run_simulation env case_data 0 w =
      (Inr \<lparr>debate_transcript = [], verdict = v, rounds_completed = 0\<rparr>, w')"
    and st: "st case_id = Some case_data" and facts: "dict_has case_data ''facts''"
  shows "snd (api_run_simulation env case_id 0 (st, w)) =
      (st(case_id \<mapsto> dict_update case_data
            [(''simulation'',
              JObject [(''debate_transcript'', JArray []), (''verdict'', v),
                       (''rounds_completed'', JInt 0)])]), w')"
    and "v = JObject d \<Longrightarrow>
      fst (api_run_simulation env case_id 0 (st, w)) =
        Inr [(''case_id'', JString case_id), (''debate_transcript'', JArray []),
             (''verdict'', JObject d), (''rounds_completed'', JInt 0)]"
  using run st facts
  by (simp_all add: api_run_simulation_def simulate_body_def load_case_def update_case_def
      json_of_result_def validate_dict_def except_clauses_def split: json.splits)

text \<open>
  Claim C10. For \<open>rounds = 0\<close> \<^verbatim>\<open>run_simulation\<close> rejects nothing: it returns an empty
  transcript and \<open>rounds_completed = 0\<close>, after invoking the judge once, with empty
  \<^verbatim>\<open>plaintiff_arguments\<close> and \<^verbatim>\<open>defendant_arguments\<close>, for a verdict. Nor does the endpoint:
  on a processed case it stores that simulation, and answers with it when the verdict is an
  object.
\<close>

theorem zero_rounds_not_rejected:
  assumes "renders env ''judge''
               [''facts'', ''issues'', ''holding'', ''plaintiff_arguments'', ''defendant_arguments'']"
  shows "\<exists>reply.
    run_simulation env case_data 0 w =
      (Inr \<lparr>debate_transcript = [], verdict = extract_verdict reply, rounds_completed = 0\<rparr>,
       w @ [(''judge'',
              [(''facts'', dict_get case_data ''facts'' (JString [])),
               (''issues'', dict_get case_data ''issues'' (JString [])),
               (''holding'', dict_get case_data ''holding'' (JString [])),
               (''plaintiff_arguments'', JString []),
               (''defendant_arguments'', JString [])])])
    \<and> (\<forall>st case_id. st case_id = Some case_data \<and> dict_has case_data ''facts'' \<longrightarrow>
          snd (api_run_simulation env case_id 0 (st, w)) =
            (st(case_id \<mapsto> dict_update case_data
                  [(''simulation'',
                    JObject [(''debate_transcript'', JArray []), (''verdict'', extract_verdict reply),
                             (''rounds_completed'', JInt 0)])]),
             w @ [(''judge'',
                    [(''facts'', dict_get case_data ''facts'' (JString [])),
                     (''issues'', dict_get case_data ''issues'' (JString [])),
                     (''holding'', dict_get case_data ''holding'' (JString [])),
                     (''plaintiff_arguments'', JString []),
                     (''defendant_arguments'', JString [])])])
          \<and> (\<forall>d. extract_verdict reply = JObject d \<longrightarrow>
                fst (api_run_simulation env case_id 0 (st, w)) =
                  Inr [(''case_id'', JString case_id), (''debate_transcript'', JArray []),
                       (''verdict'', JObject d), (''rounds_completed'', JInt 0)]))"
proof -
  from run_simulation_zero [OF assms, of case_data w] obtain reply where
    run: "run_simulation env case_data 0 w =
      (Inr \<lparr>debate_transcript = [], verdict = extract_verdict reply, rounds_completed = 0\<rparr>,
       w @ [(''judge'',
              [(''facts'', dict_get case_data ''facts'' (JString [])),
               (''issues'', dict_get case_data ''issues'' (JString [])),
               (''holding'', dict_get case_data ''holding'' (JString [])),
               (''plaintiff_arguments'', JString []),
               (''defendant_arguments'', JString [])])])"
    by blast
  show ?thesis
  proof (intro exI [of _ reply] conjI allI impI)
    show "run_simulation env case_data 0 w =
      (Inr \<lparr>debate_transcript = [], verdict = extract_verdict reply, rounds_completed = 0\<rparr>,
       w @ [(''judge'',
              [(''facts'', dict_get case_data ''facts'' (JString [])),
               (''issues'', dict_get case_data ''issues'' (JString [])),
               (''holding'', dict_get case_data ''holding'' (JString [])),
               (''plaintiff_arguments'', JString []),
               (''defendant_arguments'', JString [])])])"
      by (rule run)
  next
    fix st :: store and case_id :: string
    assume "st case_id = Some case_data \<and> dict_has case_data ''facts''"
    then show "snd (api_run_simulation env case_id 0 (st, w)) =
            (st(case_id \<mapsto> dict_update case_data
                  [(''simulation'',
                    JObject [(''debate_transcript'', JArray []), (''verdict'', extract_verdict reply),
                             (''rounds_completed'', JInt 0)])]),
             w @ [(''judge'',
                    [(''facts'', dict_get case_data ''facts'' (JString [])),
                     (''issues'', dict_get case_data ''issues'' (JString [])),
                     (''holding'', dict_get case_data ''holding'' (JString [])),
                     (''plaintiff_arguments'', JString []),
                     (''defendant_arguments'', JString [])])])"
      using api_run_simulation_zero(1) [OF run] by blast
  next
    fix st :: store and case_id :: string and d :: pydict
    assume "st case_id = Some case_data \<and> dict_has case_data ''facts''"
      and "extract_verdict reply = JObject d"
    then show "fst (api_run_simulation env case_id 0 (st, w)) =
                  Inr [(''case_id'', JString case_id), (''debate_transcript'', JArray []),
                       (''verdict'', JObject d), (''rounds_completed'', JInt 0)]"
      using api_run_simulation_zero(2) [OF run] by blast
  qed
qed

text \<open>The theorem of C10 on the processed case \<^verbatim>\<open>c2\<close> of the example store.\<close>

theorem zero_rounds_not_rejected_witness:
  "renders demo_env ''judge''
         [''facts'', ''issues'', ''holding'', ''plaintiff_arguments'', ''defendant_arguments'']
   \<and> demo_store ''c2'' = Some demo_case \<and> dict_has demo_case ''facts''
   \<and> run_simulation demo_env demo_case 0 [] =
    (Inr \<lparr>debate_transcript = [],
         verdict =
           JObject
            [(''verdict'', JString ''FAVOR_DEFENDANT''),
             (''confidence'', JInt 75),
             (''reasoning'', JArray [JString ''Reply to: Facts: F Issues: I {verbatim}'']),
             (''supporting_evidence'', JArray [JString ''Evidence from case facts''])],
         rounds_completed = 0\<rparr>,
     [(''judge'',
        [(''facts'', JString ''F''), (''issues'', JString ''I''), (''holding'', JString []),
         (''plaintiff_arguments'', JString []), (''defendant_arguments'', JString [])])])
   \<and> fst (api_run_simulation demo_env ''c2'' 0 (demo_store, [])) =
       Inr [(''case_id'', JString ''c2''), (''debate_transcript'', JArray []),
            (''verdict'', JObject
              [(''verdict'', JString ''FAVOR_DEFENDANT''),
               (''confidence'', JInt 75),
               (''reasoning'', JArray [JString ''Reply to: Facts: F Issues: I {verbatim}'']),
               (''supporting_evidence'', JArray [JString ''Evidence from case facts''])]),
            (''rounds_completed'', JInt 0)]"
proof -
  have st: "demo_store ''c2'' = Some demo_case" and facts: "dict_has demo_case ''facts''"
    by (simp_all add: demo_store_def demo_case_def dict_has_def)
  from zero_rounds_not_rejected [OF demo_renders(3), of demo_case "[]"] obtain reply where
    run: "run_simulation demo_env demo_case 0 [] =
      (Inr \<lparr>debate_transcript = [], verdict = extract_verdict reply, rounds_completed = 0\<rparr>,
       [] @ [(''judge'',
              [(''facts'', dict_get demo_case ''facts'' (JString [])),
               (''issues'', dict_get demo_case ''issues'' (JString [])),
               (''holding'', dict_get demo_case ''holding'' (JString [])),
               (''plaintiff_arguments'', JString []),
               (''defendant_arguments'', JString [])])])"
    and api: "\<forall>st case_id. st case_id = Some demo_case \<and> dict_has demo_case ''facts'' \<longrightarrow>
          (\<forall>d. extract_verdict reply = JObject d \<longrightarrow>
                fst (api_run_simulation demo_env case_id 0 (st, [])) =
                  Inr [(''case_id'', JString case_id), (''debate_transcript'', JArray []),
                       (''verdict'', JObject d), (''rounds_completed'', JInt 0)])"
    by blast
  from run have v: "extract_verdict reply = JObject
            [(''verdict'', JString ''FAVOR_DEFENDANT''),
             (''confidence'', JInt 75),
             (''reasoning'', JArray [JString ''Reply to: Facts: F Issues: I {verbatim}'']),
             (''supporting_evidence'', JArray [JString ''Evidence from case facts''])]"
    by (simp add: demo_run_zero)
  from api st facts v have r: "fst (api_run_simulation demo_env ''c2'' 0 (demo_store, [])) =
       Inr [(''case_id'', JString ''c2''), (''debate_transcript'', JArray []),
            (''verdict'', JObject
              [(''verdict'', JString ''FAVOR_DEFENDANT''),
               (''confidence'', JInt 75),
               (''reasoning'', JArray [JString ''Reply to: Facts: F Issues: I {verbatim}'']),
               (''supporting_evidence'', JArray [JString ''Evidence from case facts''])]),
            (''rounds_completed'', JInt 0)]"
    by blast
  show ?thesis
    by (intro conjI) (rule demo_renders(3) st facts demo_run_zero r)+
qed

subsection \<open>The endpoints\<close>

text \<open>
  Claim C8 says that simulating a case without extracted facts, and auditing a case without
  a simulation, is reported as a precondition failure that the caller can tell from
  not-found and from a processing failure. The endpoints do detect both before any agent is
  invoked and raise \<open>HTTPException 400\<close>, but inside the \<^verbatim>\<open>try\<close> block whose
  \<^verbatim>\<open>except Exception\<close> clause then catches it: what the caller gets is status 500, as for a
  template that fails to render. Only not-found keeps a status of its own.
\<close>

theorem precondition_failure_reported_as_500:
  "fst (api_run_simulation env ''c1'' rounds (demo_store, w)) =
      Inl (HTTPException 500 ''Error running simulation: 400: Case must be processed before simulation'')
   \<and> snd (api_run_simulation env ''c1'' rounds (demo_store, w)) = (demo_store, w)
   \<and> fst (api_audit_case env ''c2'' (demo_store, w)) =
      Inl (HTTPException 500 ''Error auditing case: 400: Simulation must be run before audit'')
   \<and> snd (api_audit_case env ''c2'' (demo_store, w)) = (demo_store, w)
   \<and> fst (api_run_simulation env ''c0'' rounds (demo_store, w)) =
      Inl (HTTPException 404 ''Case not found'')
   \<and> fst (api_run_simulation broken_env ''c2'' 2 (demo_store, w)) =
      Inl (HTTPException 500 (''Error running simulation: '' @ [CHR 0x27] @ ''missing'' @ [CHR 0x27]))"
proof -
  have n: "str_of_nat 400 = ''400''"
    by (simp add: str_of_nat.simps digit_char_def)
  have a: "fst (api_run_simulation env ''c1'' rounds (demo_store, w)) =
      Inl (HTTPException 500 ''Error running simulation: 400: Case must be processed before simulation'')"
    and b: "snd (api_run_simulation env ''c1'' rounds (demo_store, w)) = (demo_store, w)"
    by (simp_all add: api_run_simulation_def simulate_body_def load_case_def demo_store_def dict_has_def
        except_clauses_def n)
  have c: "fst (api_audit_case env ''c2'' (demo_store, w)) =
      Inl (HTTPException 500 ''Error auditing case: 400: Simulation must be run before audit'')"
    and d: "snd (api_audit_case env ''c2'' (demo_store, w)) = (demo_store, w)"
    by (simp_all add: api_audit_case_def audit_body_def load_case_def demo_store_def dict_has_def
        except_clauses_def n)
  have e: "fst (api_run_simulation env ''c0'' rounds (demo_store, w)) =
      Inl (HTTPException 404 ''Case not found'')"
    by (simp add: api_run_simulation_def simulate_body_def load_case_def demo_store_def
        except_clauses_def)
  have f: "fst (api_run_simulation broken_env ''c2'' 2 (demo_store, w)) =
      Inl (HTTPException 500 (''Error running simulation: '' @ [CHR 0x27] @ ''missing'' @ [CHR 0x27]))"
    by (simp add: api_run_simulation_def simulate_body_def load_case_def demo_store_def dict_has_def
        except_clauses_def run_simulation_def upto.simps generate_response_def broken_env_def
        format_eval dict_get_def Let_def)
  from a b c d e f show ?thesis by blast
qed

end
